theory Spec2Isabelle
  imports Complex_Main "HOL-Library.Stream"
begin

section \<open>Sweet Bonanza: the lobby round engine and the solo play path\<close>

text \<open>
  A shallow embedding of \<^verbatim>\<open>src/services/sweetBonanzaService.js\<close> (the lobby
  service) and of \<^verbatim>\<open>playGame\<close> / \<^verbatim>\<open>generateReelResult\<close> in
  \<^verbatim>\<open>src/controllers/sweetBonanza.controller.js\<close> (solo play).

  Conventions of the embedding:
  \<^item> JavaScript numbers are reals; the one non-real value the code guards against,
    \<^verbatim>\<open>NaN\<close>, is a constructor of its own (\<open>Number(x) || 0\<close> maps it to 0).
    Arithmetic is exact, except in the loss multiplier of solo play: there every
    literal, product and sum is rounded as an IEEE 754 double is (\<open>fl\<close>), because the
    limits of its bands depend on the rounding.
  \<^item> \<^verbatim>\<open>Math.random()\<close> reads the head of a stream of reals and continues with the
    tail; its contract is that every element lies in \<open>[0, 1)\<close>.
  \<^item> The MongoDB collections are an in-memory store that is passed and returned. A
    user id is the key of the user in the store. Which calls the database rejects (an
    id that cannot be cast, a document that fails validation, a lost connection) is a
    parameter of the store, \<open>rejects\<close>; a rejected call raises, and the exception
    goes where the source lets it go.
  \<^item> The engine's \<^verbatim>\<open>Array.prototype.sort\<close> and the requests the event loop serves
    while \<^verbatim>\<open>calculateResult\<close> awaits the database are parameters of a tick.
  \<^item> A loop whose exit depends on random draws is a \<^theory_text>\<open>partial_function\<close> in the
    option monad: \<open>None\<close> is a run that never leaves the loop.
\<close>

subsection \<open>Data model of the lobby\<close>

datatype phase = BETTING | SPINNING | RESULT

text \<open>The two sides a bet can take and a round can end on: \<^verbatim>\<open>'win' | 'loss'\<close>.\<close>

datatype side = Win | Loss

datatype jsnum = Num real | NaN

text \<open>\<^verbatim>\<open>Number(x) || 0\<close>: \<^verbatim>\<open>NaN\<close> (and 0) become 0.\<close>

fun orZero :: "jsnum \<Rightarrow> real" where
  "orZero (Num x) = x"
| "orZero NaN = 0"

text \<open>A bet as \<^verbatim>\<open>addBet\<close> stores it; \<open>None\<close> is a missing (null/undefined) user id.\<close>

record bet =
  userId :: "string option"
  betAmount :: jsnum
  side :: side

datatype symbol = Oval | Grapes | Watermelon | Apple | Plum | Banana | Heart

text \<open>An entry of the winners list. The id is \<^verbatim>\<open>'P-***'\<close> followed by the last four
  characters of a user id (a real winner) or by a random four-digit number (a filler).\<close>

datatype maskedId = MaskedUser string | MaskedNumber int

record winner =
  wId :: maskedId
  amount :: jsnum
  isReal :: bool

text \<open>The object \<^verbatim>\<open>generateSlotOutcome\<close> returns, and the same object after
  \<^verbatim>\<open>calculateResult\<close> has added \<^verbatim>\<open>topWinners\<close>.\<close>

record slotResult =
  reels :: "symbol list list"
  outcome :: side
  winAmount :: nat

record gameResult = slotResult +
  topWinners :: "winner list"

text \<open>\<^verbatim>\<open>this.session\<close>. \<open>roundId\<close> is the timestamp of \<^verbatim>\<open>'SB-' + Date.now()\<close>;
  \<open>roundCycle\<close> is \<open>None\<close> (undefined) until the first \<^verbatim>\<open>startNewRound\<close>.\<close>

record session =
  roundId :: nat
  phase :: phase
  timeLeft :: int
  roundCount :: nat
  roundCycle :: "nat option"
  bets :: "bet list"
  adminDecision :: "side option"
  result :: "gameResult option"
  lastRoundId :: "nat option"

definition ROUND_TIMES :: "phase \<Rightarrow> int" where
  "ROUND_TIMES p = (case p of BETTING \<Rightarrow> 10 | SPINNING \<Rightarrow> 15 | RESULT \<Rightarrow> 10)"

subsection \<open>Bet totals, bet placement, override, snapshot\<close>

text \<open>\<^verbatim>\<open>bets.filter(b => b.side === sd).reduce((sum, b) => sum + (Number(b.betAmount) || 0), 0)\<close>\<close>

definition betsTotal :: "side \<Rightarrow> bet list \<Rightarrow> real" where
  "betsTotal sd bs =
     foldl (\<lambda>sum b. sum + orZero (betAmount b)) 0 (filter (\<lambda>b. side b = sd) bs)"

datatype betReply = Accepted | Rejected string

text \<open>\<^verbatim>\<open>addBet(userId, betAmount, side)\<close>; the amount argument is the value of
  \<^verbatim>\<open>Number(betAmount)\<close>.\<close>

definition addBet :: "string option \<Rightarrow> jsnum \<Rightarrow> side \<Rightarrow> session \<Rightarrow> betReply \<times> session" where
  "addBet uid amt sd s =
     (if phase s \<noteq> BETTING then (Rejected ''Betting is closed'', s)
      else if timeLeft s < 1 then (Rejected ''Betting time expired'', s)
      else (Accepted,
            s\<lparr>bets := bets s @ [\<lparr>userId = uid, betAmount = amt, side = sd\<rparr>]\<rparr>))"

text \<open>\<^verbatim>\<open>setAdminDecision(decision)\<close>; \<open>None\<close> is a null argument.\<close>

definition setAdminDecision :: "side option \<Rightarrow> session \<Rightarrow> session" where
  "setAdminDecision decision s =
     (if phase s \<noteq> SPINNING then s else s\<lparr>adminDecision := decision\<rparr>)"

record snapshot =
  snPhase :: phase
  snTimeLeft :: int
  snRoundId :: nat
  snRoundCycle :: nat
  snAdminDecision :: "side option"
  snResult :: "gameResult option"
  betsCount :: nat
  viewersCount :: nat
  totalPlayers :: nat
  betsTotalsWin :: real
  betsTotalsLoss :: real

text \<open>\<^verbatim>\<open>getState(userId)\<close>: the caller is recorded in \<^verbatim>\<open>activePlayers\<close> unless the
  id is missing or \<^verbatim>\<open>'anonymous'\<close>; the snapshot and the new set are returned.\<close>

definition getState :: "string option \<Rightarrow> string set \<Rightarrow> session \<Rightarrow> snapshot \<times> string set" where
  "getState uid activePlayers s =
     (let activePlayers' =
            (case uid of
               None \<Rightarrow> activePlayers
             | Some u \<Rightarrow> if u \<noteq> [] \<and> u \<noteq> ''anonymous'' then insert u activePlayers
                         else activePlayers);
          winBetsTotal = betsTotal Win (bets s);
          lossBetsTotal = betsTotal Loss (bets s);
          uniqueBetters =
            set (map (\<lambda>b. case userId b of None \<Rightarrow> ''guest''
                           | Some u \<Rightarrow> if u = [] then ''guest'' else u) (bets s))
      in (\<lparr> snPhase = phase s,
            snTimeLeft = max 0 (timeLeft s),
            snRoundId = roundId s,
            snRoundCycle = (case roundCycle s of None \<Rightarrow> 1 | Some c \<Rightarrow> if c = 0 then 1 else c),
            snAdminDecision = adminDecision s,
            snResult = result s,
            betsCount = length (bets s),
            viewersCount = card activePlayers' - card uniqueBetters,
            totalPlayers = max (card activePlayers') (length (bets s)),
            betsTotalsWin = winBetsTotal,
            betsTotalsLoss = lossBetsTotal \<rparr>,
          activePlayers'))"

subsection \<open>The decision of a round\<close>

text \<open>Lines 110--135 of \<^verbatim>\<open>calculateResult\<close>: the decision is the admin override when
  one is set, and follows the five-round cycle otherwise.\<close>

definition calculateDecision :: "session \<Rightarrow> side" where
  "calculateDecision s =
     (let winBetsTotal = betsTotal Win (bets s);
          lossBetsTotal = betsTotal Loss (bets s);
          majoritySide = (if winBetsTotal \<ge> lossBetsTotal then Win else Loss);
          minoritySide = (if majoritySide = Win then Loss else Win)
      in case adminDecision s of
           Some decision \<Rightarrow> decision
         | None \<Rightarrow>
             if roundCycle s = Some 1 then minoritySide
             else if roundCycle s = Some 5 then majoritySide
             else minoritySide)"

subsection \<open>The lobby outcome generator\<close>

definition SYMBOLS :: "symbol list" where
  "SYMBOLS = [Oval, Grapes, Watermelon, Apple, Plum, Banana, Heart]"

text \<open>\<^verbatim>\<open>Math.floor(Math.random() * n)\<close>\<close>

definition randomIndex :: "nat \<Rightarrow> real stream \<Rightarrow> nat \<times> real stream" where
  "randomIndex n rnd = (nat \<lfloor>shd rnd * real n\<rfloor>, stl rnd)"

text \<open>\<^verbatim>\<open>SYMBOLS[Math.floor(Math.random() * SYMBOLS.length)]\<close>; the index is below 7
  for a draw in \<open>[0, 1)\<close>.\<close>

definition randomSymbol :: "real stream \<Rightarrow> symbol \<times> real stream" where
  "randomSymbol rnd = (case randomIndex (length SYMBOLS) rnd of (i, rnd') \<Rightarrow> (SYMBOLS ! i, rnd'))"

text \<open>\<^verbatim>\<open>Array(n).fill(null).map(() => f())\<close> for an \<open>f\<close> that draws random numbers.\<close>

fun fillWith :: "nat \<Rightarrow> (real stream \<Rightarrow> 'a \<times> real stream) \<Rightarrow> real stream \<Rightarrow> 'a list \<times> real stream" where
  "fillWith 0 f rnd = ([], rnd)"
| "fillWith (Suc n) f rnd =
     (case f rnd of (x, rnd1) \<Rightarrow>
        (case fillWith n f rnd1 of (xs, rnd2) \<Rightarrow> (x # xs, rnd2)))"

text \<open>\<^verbatim>\<open>reels[c][r] = v\<close>\<close>

definition setCell :: "nat \<Rightarrow> nat \<Rightarrow> symbol \<Rightarrow> symbol list list \<Rightarrow> symbol list list" where
  "setCell c r v rls = rls[c := (rls ! c)[r := v]]"

text \<open>The \<^verbatim>\<open>while (count < 12)\<close> loop of the \<open>win\<close> branch: a cell is drawn, and it
  is overwritten and counted only when it does not hold \<open>winSym\<close> yet.\<close>

partial_function (option) forceWin ::
  "symbol \<Rightarrow> nat \<Rightarrow> symbol list list \<Rightarrow> real stream \<Rightarrow> (symbol list list \<times> real stream) option" where
  "forceWin winSym count rls rnd =
     (if count < 12 then
        (case randomIndex 6 rnd of (c, rnd1) \<Rightarrow>
         case randomIndex 5 rnd1 of (r, rnd2) \<Rightarrow>
           if rls ! c ! r \<noteq> winSym
           then forceWin winSym (count + 1) (setCell c r winSym rls) rnd2
           else forceWin winSym count rls rnd2)
      else Some (rls, rnd))"

text \<open>The \<^verbatim>\<open>do { nextSym = ... } while (nextSym === sym)\<close> loop of the \<open>loss\<close> branch.\<close>

partial_function (option) pickOther :: "symbol \<Rightarrow> real stream \<Rightarrow> (symbol \<times> real stream) option" where
  "pickOther symb rnd =
     (case randomSymbol rnd of (nextSym, rnd') \<Rightarrow>
        if nextSym = symb then pickOther symb rnd' else Some (nextSym, rnd'))"

text \<open>The cells in the order the nested \<^verbatim>\<open>for\<close> loops visit them.\<close>

definition gridCells :: "(nat \<times> nat) list" where
  "gridCells = concat (map (\<lambda>c. map (\<lambda>r. (c, r)) [0..<5]) [0..<6])"

text \<open>The scan for one symbol over the remaining cells: the eighth and every later
  occurrence is replaced by another random symbol.\<close>

fun capCells ::
  "symbol \<Rightarrow> (nat \<times> nat) list \<Rightarrow> nat \<Rightarrow> symbol list list \<Rightarrow> real stream
     \<Rightarrow> (symbol list list \<times> real stream) option" where
  "capCells symb [] count rls rnd = Some (rls, rnd)"
| "capCells symb ((c, r) # cells) count rls rnd =
     (if rls ! c ! r = symb then
        (if count + 1 \<ge> 8 then
           (case pickOther symb rnd of
              None \<Rightarrow> None
            | Some (nextSym, rnd') \<Rightarrow> capCells symb cells (count + 1) (setCell c r nextSym rls) rnd')
         else capCells symb cells (count + 1) rls rnd)
      else capCells symb cells count rls rnd)"

text \<open>\<^verbatim>\<open>for (const symb of SYMBOLS_SAFE)\<close>\<close>

fun capSymbols ::
  "symbol list \<Rightarrow> symbol list list \<Rightarrow> real stream \<Rightarrow> (symbol list list \<times> real stream) option" where
  "capSymbols [] rls rnd = Some (rls, rnd)"
| "capSymbols (symb # symbs) rls rnd =
     (case capCells symb gridCells 0 rls rnd of
        None \<Rightarrow> None
      | Some (rls', rnd') \<Rightarrow> capSymbols symbs rls' rnd')"

text \<open>\<^verbatim>\<open>generateSlotOutcome(decision)\<close>; \<open>None\<close> when one of its loops never ends.\<close>

definition generateSlotOutcome :: "side \<Rightarrow> real stream \<Rightarrow> (slotResult \<times> real stream) option" where
  "generateSlotOutcome decision rnd =
     (case fillWith 6 (fillWith 5 randomSymbol) rnd of (rls, rnd1) \<Rightarrow>
        (case (if decision = Win
               then (case randomSymbol rnd1 of (winSym, rnd2) \<Rightarrow> forceWin winSym 0 rls rnd2)
               else capSymbols SYMBOLS rls rnd1) of
           None \<Rightarrow> None
         | Some (rls', rnd') \<Rightarrow>
             Some (\<lparr> reels = rls', outcome = decision,
                     winAmount = (if decision = Win then 1 else 0) \<rparr>, rnd')))"

text \<open>The number of cells of a grid that hold a symbol.\<close>

definition occurrences :: "symbol \<Rightarrow> symbol list list \<Rightarrow> nat" where
  "occurrences symb rls = count_list (concat rls) symb"

text \<open>A grid of six reels of five cells, and the number of cells of a grid that do
  not hold a symbol.\<close>

definition wellShaped :: "symbol list list \<Rightarrow> bool" where
  "wellShaped rls = (length rls = 6 \<and> (\<forall>reel \<in> set rls. length reel = 5))"

definition misses :: "symbol \<Rightarrow> symbol list list \<Rightarrow> nat" where
  "misses winSym rls = length (filter (\<lambda>x. x \<noteq> winSym) (concat rls))"

subsection \<open>Solo play: symbols\<close>

text \<open>The nine symbols of the solo reels, in the order of the keys of
  \<^verbatim>\<open>SYMBOL_WEIGHTS\<close>: grapes, orange, lemon, melon, banana, apple, strawberry, star,
  gem. Star and gem are the scatter symbols.\<close>

datatype soloSymbol =
  SGrapes | SOrange | SLemon | SMelon | SBanana | SApple | SStrawberry | SStar | SGem

type_synonym cell = "nat \<times> nat"

subsection \<open>The ledger store and lobby settlement\<close>

text \<open>The fields of a \<^verbatim>\<open>User\<close> document that the game reads or writes.\<close>

record user =
  balance :: real
  status :: string
  totalWinnings :: real
  currency :: "string option"

datatype txType = game_win | game_loss

text \<open>The \<^verbatim>\<open>metadata\<close> object of a transaction. The lobby writes round, stake and
  side. Solo play writes \<^verbatim>\<open>betAmount\<close>, \<^verbatim>\<open>actualLoss\<close>, \<^verbatim>\<open>winAmount\<close>,
  \<^verbatim>\<open>netChange\<close>, \<^verbatim>\<open>percentageChange\<close>, \<^verbatim>\<open>balanceBefore\<close>, \<^verbatim>\<open>balanceAfter\<close>,
  \<^verbatim>\<open>lossMultiplier\<close>, \<^verbatim>\<open>reels\<close> and \<^verbatim>\<open>winningPositions\<close>.\<close>

datatype txMeta =
    LobbyMeta nat real side
  | SoloMeta real real real real real real real "real option" "soloSymbol list list" "cell list"

record transaction =
  txUser :: string
  txType :: txType
  txAmount :: real
  txStatus :: string
  txDescription :: string
  txMetadata :: txMeta

datatype changeType = ChangeWin | ChangeLoss

text \<open>A balance-history record: user, change type, balances before and after, change,
  percentage, the id of the transaction it refers to and the amount of the game outcome.
  Its description text and its copy of the transaction metadata are left out.\<close>

record balanceHistory =
  bhUser :: string
  bhChangeType :: changeType
  bhPreviousBalance :: real
  bhNewBalance :: real
  bhChange :: real
  bhPercentageChange :: real
  bhReferenceId :: nat
  bhOutcomeAmount :: real

text \<open>What a database call raises when it is rejected: a Mongoose
  \<^verbatim>\<open>ValidationError\<close> with the messages of its field errors, or any other error with
  its message (a \<^verbatim>\<open>CastError\<close> for an id that is no ObjectId, a driver error).\<close>

datatype dbError = ValidationError "string list" | OtherError string

text \<open>The calls the game makes, with their arguments.\<close>

datatype dbCall =
    FindUser "string option"
  | IncBalance string real
  | SaveUser string user
  | CreateTransaction transaction
  | CreateHistory balanceHistory
  | CommitTransaction

text \<open>The three collections, and the calls the database rejects with the error it
  raises for each. A created document is appended; its \<^verbatim>\<open>_id\<close> is its index in the
  collection.\<close>

record store =
  users :: "string \<rightharpoonup> user"
  transactions :: "transaction list"
  balanceHistories :: "balanceHistory list"
  rejects :: "dbCall \<Rightarrow> dbError option"

text \<open>\<^verbatim>\<open>User.findById(id)\<close>: the call raises when it is rejected; otherwise there is
  no document for a missing id.\<close>

definition findById :: "store \<Rightarrow> string option \<Rightarrow> dbError + user option" where
  "findById db uid =
     (case rejects db (FindUser uid) of
        Some e \<Rightarrow> Inl e
      | None \<Rightarrow> Inr (case uid of None \<Rightarrow> None | Some u \<Rightarrow> users db u))"

text \<open>\<^verbatim>\<open>User.updateOne({ _id: u }, { $inc: { balance: x } })\<close>\<close>

definition incBalance :: "string \<Rightarrow> real \<Rightarrow> store \<Rightarrow> dbError + store" where
  "incBalance u x db =
     (case rejects db (IncBalance u x) of
        Some e \<Rightarrow> Inl e
      | None \<Rightarrow>
          Inr (case users db u of
                 None \<Rightarrow> db
               | Some usr \<Rightarrow> db\<lparr>users := (users db)(u \<mapsto> usr\<lparr>balance := balance usr + x\<rparr>)\<rparr>))"

text \<open>\<^verbatim>\<open>user.save()\<close> for the document \<open>usr\<close> of user \<open>u\<close>.\<close>

definition saveUser :: "string \<Rightarrow> user \<Rightarrow> store \<Rightarrow> dbError + store" where
  "saveUser u usr db =
     (case rejects db (SaveUser u usr) of
        Some e \<Rightarrow> Inl e
      | None \<Rightarrow> Inr (db\<lparr>users := (users db)(u \<mapsto> usr)\<rparr>))"

definition createTransaction :: "transaction \<Rightarrow> store \<Rightarrow> dbError + store" where
  "createTransaction tx db =
     (case rejects db (CreateTransaction tx) of
        Some e \<Rightarrow> Inl e
      | None \<Rightarrow> Inr (db\<lparr>transactions := transactions db @ [tx]\<rparr>))"

definition createBalanceHistory :: "balanceHistory \<Rightarrow> store \<Rightarrow> dbError + store" where
  "createBalanceHistory h db =
     (case rejects db (CreateHistory h) of
        Some e \<Rightarrow> Inl e
      | None \<Rightarrow> Inr (db\<lparr>balanceHistories := balanceHistories db @ [h]\<rparr>))"

text \<open>\<^verbatim>\<open>session.commitTransaction()\<close>\<close>

definition commitTransaction :: "store \<Rightarrow> dbError + store" where
  "commitTransaction db =
     (case rejects db CommitTransaction of Some e \<Rightarrow> Inl e | None \<Rightarrow> Inr db)"

text \<open>Sequencing of calls: the first one that raises ends the sequence.\<close>

definition andThen :: "dbError + 'a \<Rightarrow> ('a \<Rightarrow> dbError + 'b) \<Rightarrow> dbError + 'b" where
  "andThen r f = (case r of Inl e \<Rightarrow> Inl e | Inr x \<Rightarrow> f x)"

fun sideName :: "side \<Rightarrow> string" where
  "sideName Win = ''win''"
| "sideName Loss = ''loss''"

text \<open>How the body of the payout loop ends for one bet: it completes, or a database
  call raises; either way with the store reached by then.\<close>

datatype settled = Done store | Thrown store

text \<open>The body of the loop of \<^verbatim>\<open>processPayouts\<close> for one bet of round \<open>rid\<close>. A win
  whose credit went through and whose transaction is rejected leaves the credit.\<close>

definition settleBet :: "nat \<Rightarrow> side \<Rightarrow> bet \<Rightarrow> store \<Rightarrow> settled" where
  "settleBet rid slotOutcome b db =
     (if userId b = Some ''anonymous'' then Done db
      else case userId b of
        None \<Rightarrow> (case findById db None of Inl e \<Rightarrow> Thrown db | Inr usr \<Rightarrow> Done db)
      | Some uid \<Rightarrow>
       (case findById db (Some uid) of
          Inl e \<Rightarrow> Thrown db
        | Inr None \<Rightarrow> Done db
        | Inr (Some usr) \<Rightarrow>
          (let userWon = (side b = slotOutcome);
               stake = orZero (betAmount b)
           in if userWon then
                (let payout = stake * 2
                 in case incBalance uid payout db of
                      Inl e \<Rightarrow> Thrown db
                    | Inr db1 \<Rightarrow>
                        (case createTransaction
                                \<lparr> txUser = uid, txType = game_win, txAmount = payout,
                                  txStatus = ''completed'',
                                  txDescription =
                                    ''Sweet Bonanza Lobby Win ('' @ sideName (side b) @ '')'',
                                  txMetadata = LobbyMeta rid stake (side b) \<rparr> db1 of
                           Inl e \<Rightarrow> Thrown db1
                         | Inr db2 \<Rightarrow> Done db2))
              else
                (case createTransaction
                        \<lparr> txUser = uid, txType = game_loss, txAmount = stake,
                          txStatus = ''completed'',
                          txDescription = ''Sweet Bonanza Lobby Loss ('' @ sideName (side b) @ '')'',
                          txMetadata = LobbyMeta rid stake (side b) \<rparr> db of
                   Inl e \<Rightarrow> Thrown db
                 | Inr db1 \<Rightarrow> Done db1))))"

text \<open>The \<^verbatim>\<open>for\<close> loop of \<^verbatim>\<open>processPayouts\<close> over the bets in the order they were
  placed. The \<^verbatim>\<open>try\<close> block holds the whole loop, so the first exception ends it.\<close>

fun settleBets :: "nat \<Rightarrow> side \<Rightarrow> bet list \<Rightarrow> store \<Rightarrow> settled" where
  "settleBets rid slotOutcome [] db = Done db"
| "settleBets rid slotOutcome (b # bs) db =
     (case settleBet rid slotOutcome b db of
        Thrown db' \<Rightarrow> Thrown db'
      | Done db' \<Rightarrow> settleBets rid slotOutcome bs db')"

text \<open>\<^verbatim>\<open>processPayouts(slotOutcome, gameResult)\<close>: the loop, and the handler that logs
  the exception and returns.\<close>

definition processPayouts :: "nat \<Rightarrow> side \<Rightarrow> bet list \<Rightarrow> store \<Rightarrow> store" where
  "processPayouts rid slotOutcome bs db =
     (case settleBets rid slotOutcome bs db of Done db' \<Rightarrow> db' | Thrown db' \<Rightarrow> db')"

subsection \<open>The winners list\<close>

text \<open>\<^verbatim>\<open>id.toString().slice(-4)\<close> and \<^verbatim>\<open>bet.betAmount * 2\<close>.\<close>

definition lastFour :: "string \<Rightarrow> string" where
  "lastFour u = drop (length u - 4) u"

fun timesTwo :: "jsnum \<Rightarrow> jsnum" where
  "timesTwo (Num x) = Num (x * 2)"
| "timesTwo NaN = NaN"

text \<open>The real winners: the bets on the decided side whose user is found. A lookup
  that raises is caught inside the loop body and adds nothing.\<close>

definition realWinners :: "side \<Rightarrow> bet list \<Rightarrow> store \<Rightarrow> winner list" where
  "realWinners slotOutcome bs db =
     concat (map (\<lambda>b. if side b = slotOutcome then
                          (case userId b of
                             None \<Rightarrow> []
                           | Some uid \<Rightarrow>
                               (case findById db (Some uid) of
                                  Inr (Some usr) \<Rightarrow>
                                    [\<lparr> wId = MaskedUser (lastFour uid),
                                       amount = timesTwo (betAmount b), isReal = True \<rparr>]
                                | _ \<Rightarrow> []))
                        else []) bs)"

text \<open>One filler entry: a four-digit id and an amount from 100 up to 4999.\<close>

definition fakeWinner :: "real stream \<Rightarrow> winner \<times> real stream" where
  "fakeWinner rnd =
     (\<lparr> wId = MaskedNumber \<lfloor>1000 + shd rnd * 9000\<rfloor>,
        amount = Num (real_of_int (\<lfloor>shd (stl rnd) * 4900\<rfloor> + 100)),
        isReal = False \<rparr>,
      stl (stl rnd))"

text \<open>The comparator of the sort: real entries first, then larger amounts first. A
  difference that is \<^verbatim>\<open>NaN\<close> counts as 0, as the sort specification reads it.\<close>

fun amountDiff :: "jsnum \<Rightarrow> jsnum \<Rightarrow> real" where
  "amountDiff (Num x) (Num y) = x - y"
| "amountDiff _ _ = 0"

definition compareWinners :: "winner \<Rightarrow> winner \<Rightarrow> real" where
  "compareWinners a b =
     (if isReal a \<noteq> isReal b then (if isReal a then - 1 else 1)
      else amountDiff (amount b) (amount a))"

text \<open>\<^verbatim>\<open>Array.prototype.sort\<close> belongs to the engine: the order it gives for a
  comparator that is no consistent order (an amount that is \<^verbatim>\<open>NaN\<close>) is its own. It
  is a parameter that takes the comparator and the array.\<close>

type_synonym winnerSort = "(winner \<Rightarrow> winner \<Rightarrow> real) \<Rightarrow> winner list \<Rightarrow> winner list"

definition generateWinnersList ::
  "winnerSort \<Rightarrow> side \<Rightarrow> bet list \<Rightarrow> store \<Rightarrow> real stream \<Rightarrow> winner list \<times> real stream" where
  "generateWinnersList engineSort slotOutcome bs db rnd =
     (let winners = realWinners slotOutcome bs db;
          targetCount = max 10 (length winners + 3)
      in case fillWith (targetCount - length winners) fakeWinner rnd of
           (fakes, rnd') \<Rightarrow> (take 10 (engineSort compareWinners (winners @ fakes)), rnd'))"

text \<open>A stable insertion sort, the sort of the concrete runs below.\<close>

fun insertBy :: "('a \<Rightarrow> 'a \<Rightarrow> real) \<Rightarrow> 'a \<Rightarrow> 'a list \<Rightarrow> 'a list" where
  "insertBy cmp x [] = [x]"
| "insertBy cmp x (y # ys) = (if cmp x y \<le> 0 then x # y # ys else y # insertBy cmp x ys)"

definition insertionSort :: "('a \<Rightarrow> 'a \<Rightarrow> real) \<Rightarrow> 'a list \<Rightarrow> 'a list" where
  "insertionSort cmp xs = foldr (insertBy cmp) xs []"

subsection \<open>The round loop\<close>

text \<open>What the service owns besides the session, with the store and the random source
  it works on.\<close>

record world =
  wSession :: session
  wPlayers :: "string set"
  wStore :: store
  wRandom :: "real stream"

text \<open>\<^verbatim>\<open>startNewRound\<close> at time \<open>now\<close>.\<close>

definition startNewRound :: "nat \<Rightarrow> session \<Rightarrow> session" where
  "startNewRound now s =
     s\<lparr> roundCount := roundCount s + 1,
        roundCycle := Some (((roundCount s + 1 - 1) mod 5) + 1),
        roundId := now,
        phase := BETTING,
        timeLeft := ROUND_TIMES BETTING,
        bets := [],
        adminDecision := None,
        result := None \<rparr>"

text \<open>The requests that reach the lobby service: a bet, an admin override, a state
  poll. Other writers of the store (a solo play of the same user) are not among them.\<close>

datatype request =
    PlaceBet "string option" jsnum side
  | Override "side option"
  | Poll "string option"

definition handleRequest :: "request \<Rightarrow> world \<Rightarrow> world" where
  "handleRequest req w =
     (case req of
        PlaceBet uid amt sd \<Rightarrow> w\<lparr>wSession := snd (addBet uid amt sd (wSession w))\<rparr>
      | Override decision \<Rightarrow> w\<lparr>wSession := setAdminDecision decision (wSession w)\<rparr>
      | Poll uid \<Rightarrow> w\<lparr>wPlayers := snd (getState uid (wPlayers w) (wSession w))\<rparr>)"

definition handleRequests :: "request list \<Rightarrow> world \<Rightarrow> world" where
  "handleRequests reqs w = foldl (\<lambda>v req. handleRequest req v) w reqs"

text \<open>What a tick meets: the clock; whether and where an exception is raised in the
  \<^verbatim>\<open>try\<close> block; the requests the event loop serves while \<^verbatim>\<open>calculateResult\<close>
  awaits a database call; the engine's sort. No statement of the \<^verbatim>\<open>try\<close> block is
  known to raise (the database calls are wrapped in handlers of their own), so a failure
  is injected: as \<^verbatim>\<open>nextPhase\<close> is entered, or after it has returned.\<close>

datatype tickFailure = NoFailure | FailsEnteringPhase | FailsAfterPhase

record tickEnv =
  now :: nat
  secondIsZero :: bool
  failure :: tickFailure
  arrivals :: "request list"
  engineSort :: winnerSort

text \<open>\<^verbatim>\<open>calculateResult\<close> suspends only where a database call is awaited: at the
  lookup for a bet on the decided side (winners list) and at the lookup for a bet that
  is not anonymous (payouts).\<close>

definition awaitsDatabase :: "side \<Rightarrow> bet list \<Rightarrow> bool" where
  "awaitsDatabase decision bs =
     list_ex (\<lambda>b. side b = decision \<or> userId b \<noteq> Some ''anonymous'') bs"

text \<open>\<^verbatim>\<open>calculateResult\<close>: the decision is computed from the session as it is on
  entry, then the outcome is generated, and the winners list and the payouts await the
  database. The phase is still \<open>SPINNING\<close> while they do, and the requests that
  arrive are served then; the payouts read bets and round id from the session after
  that. \<open>None\<close> when the outcome generator never returns.\<close>

definition calculateResult :: "tickEnv \<Rightarrow> world \<Rightarrow> world option" where
  "calculateResult env w =
     (let s = wSession w;
          decision = calculateDecision s
      in case generateSlotOutcome decision (wRandom w) of
           None \<Rightarrow> None
         | Some (slot, rnd1) \<Rightarrow>
             (case generateWinnersList (engineSort env) decision (bets s) (wStore w) rnd1 of
                (winnersList, rnd2) \<Rightarrow>
                  (let w1 = (if awaitsDatabase decision (bets s)
                             then handleRequests (arrivals env) w else w);
                       s1 = wSession w1
                   in Some (w1\<lparr> wSession :=
                                  s1\<lparr>result := Some (slotResult.extend slot
                                                        (gameResult.fields winnersList))\<rparr>,
                                wStore := processPayouts (roundId s1) decision (bets s1) (wStore w1),
                                wRandom := rnd2 \<rparr>))))"

definition nextPhase :: "tickEnv \<Rightarrow> world \<Rightarrow> world option" where
  "nextPhase env w =
     (case phase (wSession w) of
        BETTING \<Rightarrow>
          Some (w\<lparr>wSession := (wSession w)\<lparr>phase := SPINNING, timeLeft := ROUND_TIMES SPINNING\<rparr>\<rparr>)
      | SPINNING \<Rightarrow>
          (case calculateResult env w of
             None \<Rightarrow> None
           | Some w' \<Rightarrow>
               Some (w'\<lparr>wSession := (wSession w')\<lparr>phase := RESULT, timeLeft := ROUND_TIMES RESULT\<rparr>\<rparr>))
      | RESULT \<Rightarrow> Some (w\<lparr>wSession := startNewRound (now env) (wSession w)\<rparr>))"

text \<open>The \<^verbatim>\<open>catch\<close> block of the tick.\<close>

definition tickRecover :: "world \<Rightarrow> world" where
  "tickRecover w = w\<lparr>wSession := (wSession w)\<lparr>phase := BETTING, timeLeft := 10\<rparr>\<rparr>"

text \<open>One run of \<^verbatim>\<open>tick\<close>. The changes made before an exception stay; the handler
  then forces the phase and the timer.\<close>

definition tick :: "tickEnv \<Rightarrow> world \<Rightarrow> world option" where
  "tick env w =
     (let w1 = w\<lparr>wSession := (wSession w)\<lparr>timeLeft := timeLeft (wSession w) - 1\<rparr>\<rparr>
      in if timeLeft (wSession w1) \<le> 0 \<and> failure env = FailsEnteringPhase
         then Some (tickRecover w1)
         else
           (case (if timeLeft (wSession w1) \<le> 0 then nextPhase env w1 else Some w1) of
              None \<Rightarrow> None
            | Some w2 \<Rightarrow>
                if failure env = FailsAfterPhase then Some (tickRecover w2)
                else Some (if secondIsZero env then w2\<lparr>wPlayers := {}\<rparr> else w2)))"


subsection \<open>Solo play: the reel result\<close>

definition SYMBOL_WEIGHTS :: "(soloSymbol \<times> real) list" where
  "SYMBOL_WEIGHTS =
     [(SGrapes, 40), (SOrange, 30), (SLemon, 20), (SMelon, 15), (SBanana, 10),
      (SApple, 5), (SStrawberry, 3), (SStar, 1.5), (SGem, 0.5)]"

fun SYMBOL_MULTIPLIERS :: "soloSymbol \<Rightarrow> real" where
  "SYMBOL_MULTIPLIERS SGem = 20"
| "SYMBOL_MULTIPLIERS SStar = 10"
| "SYMBOL_MULTIPLIERS SStrawberry = 5"
| "SYMBOL_MULTIPLIERS SApple = 3"
| "SYMBOL_MULTIPLIERS SBanana = 2"
| "SYMBOL_MULTIPLIERS SMelon = 1.5"
| "SYMBOL_MULTIPLIERS SLemon = 1.2"
| "SYMBOL_MULTIPLIERS SOrange = 1.1"
| "SYMBOL_MULTIPLIERS SGrapes = 1"

text \<open>The loop of \<^verbatim>\<open>getWeightedSymbol\<close> over the weight table; grapes is the fallback.\<close>

fun pickWeighted :: "real \<Rightarrow> (soloSymbol \<times> real) list \<Rightarrow> soloSymbol" where
  "pickWeighted random [] = SGrapes"
| "pickWeighted random ((symbol, weight) # rest) =
     (if random - weight \<le> 0 then symbol else pickWeighted (random - weight) rest)"

definition getWeightedSymbol :: "real stream \<Rightarrow> soloSymbol \<times> real stream" where
  "getWeightedSymbol rnd =
     (let totalWeight = foldl (\<lambda>sum (symbol, weight). sum + weight) 0 SYMBOL_WEIGHTS;
          random = shd rnd * totalWeight
      in (pickWeighted random SYMBOL_WEIGHTS, stl rnd))"

text \<open>An entry of \<^verbatim>\<open>symbolCounts\<close>; its key is the pair of row position and symbol.\<close>

record combo =
  cSymbol :: soloSymbol
  cPosition :: nat
  cCount :: nat
  cPositions :: "cell list"

text \<open>One step of the counting loop; a new key is appended, as the insertion order of
  the object's keys has it.\<close>

fun countCell :: "nat \<Rightarrow> nat \<Rightarrow> soloSymbol \<Rightarrow> combo list \<Rightarrow> combo list" where
  "countCell reelIndex symbolIndex symbol [] =
     [\<lparr> cSymbol = symbol, cPosition = symbolIndex, cCount = 1,
        cPositions = [(reelIndex, symbolIndex)] \<rparr>]"
| "countCell reelIndex symbolIndex symbol (e # es) =
     (if cPosition e = symbolIndex \<and> cSymbol e = symbol
      then e\<lparr> cCount := cCount e + 1, cPositions := cPositions e @ [(reelIndex, symbolIndex)] \<rparr> # es
      else e # countCell reelIndex symbolIndex symbol es)"

definition symbolCounts :: "soloSymbol list list \<Rightarrow> combo list" where
  "symbolCounts rls =
     foldl (\<lambda>acc (reelIndex, reel).
              foldl (\<lambda>acc' (symbolIndex, symbol). countCell reelIndex symbolIndex symbol acc')
                    acc (enumerate 0 reel))
           [] (enumerate 0 rls)"

text \<open>The running state of the win computation: \<^verbatim>\<open>totalWin\<close>, \<^verbatim>\<open>winningPositions\<close>
  and the random source.\<close>

type_synonym winState = "real \<times> cell list \<times> real stream"

text \<open>The body of \<^verbatim>\<open>Object.values(symbolCounts).forEach\<close>. A random number is drawn
  only when the count is exactly 3.\<close>

definition comboWin :: "real \<Rightarrow> combo \<Rightarrow> winState \<Rightarrow> winState" where
  "comboWin bet e st =
     (case st of (totalWin, winningPositions, rnd) \<Rightarrow>
        if cCount e \<ge> 5 then
          (totalWin + bet * (SYMBOL_MULTIPLIERS (cSymbol e) * real (cCount e - 4) * 0.7),
           winningPositions @ cPositions e, rnd)
        else if cCount e \<ge> 4 then
          (totalWin + bet * (SYMBOL_MULTIPLIERS (cSymbol e) * 0.6),
           winningPositions @ cPositions e, rnd)
        else if cCount e = 3 then
          (if shd rnd < 0.3
           then (totalWin + bet * (SYMBOL_MULTIPLIERS (cSymbol e) * 0.4),
                 winningPositions @ cPositions e, stl rnd)
           else (totalWin, winningPositions, stl rnd))
        else st)"

definition isScatter :: "soloSymbol \<Rightarrow> bool" where
  "isScatter s = (s = SStar \<or> s = SGem)"

definition scatterCount :: "soloSymbol list list \<Rightarrow> nat" where
  "scatterCount rls = length (filter isScatter (concat rls))"

definition scatterPositions :: "soloSymbol list list \<Rightarrow> cell list" where
  "scatterPositions rls =
     concat (map (\<lambda>(reelIndex, reel).
                    map (\<lambda>(symbolIndex, symbol). (reelIndex, symbolIndex))
                        (filter (\<lambda>(symbolIndex, symbol). isScatter symbol) (enumerate 0 reel)))
                 (enumerate 0 rls))"

text \<open>The scatter section (lines 110--147). A random number is drawn only when the
  scatter count is exactly 3.\<close>

definition scatterWin :: "real \<Rightarrow> soloSymbol list list \<Rightarrow> winState \<Rightarrow> winState" where
  "scatterWin bet rls st =
     (case st of (totalWin, winningPositions, rnd) \<Rightarrow>
        if scatterCount rls \<ge> 5 then
          (let scatterMultiplier =
                 (if scatterCount rls = 5 then 1.5 else if scatterCount rls \<ge> 6 then 2.5 else 0)
           in (totalWin + bet * scatterMultiplier, winningPositions @ scatterPositions rls, rnd))
        else if scatterCount rls \<ge> 4 then
          (totalWin + bet * 1.0, winningPositions @ scatterPositions rls, rnd)
        else if scatterCount rls = 3 then
          (if shd rnd < 0.2
           then (totalWin + bet * 0.6, winningPositions @ scatterPositions rls, stl rnd)
           else (totalWin, winningPositions, stl rnd))
        else st)"

record reelResult =
  rrReels :: "soloSymbol list list"
  rrWinAmount :: real
  rrWinningPositions :: "cell list"

text \<open>The win computation of \<^verbatim>\<open>generateReelResult\<close> on a given grid.\<close>

definition reelWin :: "real \<Rightarrow> soloSymbol list list \<Rightarrow> real stream \<Rightarrow> reelResult \<times> real stream" where
  "reelWin bet rls rnd =
     (case scatterWin bet rls (foldl (\<lambda>st e. comboWin bet e st) (0, [], rnd) (symbolCounts rls)) of
        (totalWin, winningPositions, rnd') \<Rightarrow>
          (\<lparr> rrReels = rls,
             rrWinAmount = real_of_int \<lfloor>totalWin * 100\<rfloor> / 100,
             rrWinningPositions = winningPositions \<rparr>, rnd'))"

definition generateReelResult :: "real \<Rightarrow> real stream \<Rightarrow> reelResult \<times> real stream" where
  "generateReelResult bet rnd =
     (case fillWith 6 (fillWith 3 getWeightedSymbol) rnd of
        (rls, rnd1) \<Rightarrow> reelWin bet rls rnd1)"

subsection \<open>Solo play: \<^verbatim>\<open>playGame\<close>\<close>

text \<open>The request body's \<^verbatim>\<open>betAmount\<close>: falsy (missing, null, 0, empty), or truthy
  with the value \<^verbatim>\<open>parseFloat\<close> gives it. An infinite value is not modelled.\<close>

datatype reqBet = Falsy | Truthy jsnum

datatype appError = AppError string nat

record playResponse =
  prReels :: "soloSymbol list list"
  prBetAmount :: real
  prActualLoss :: real
  prWinAmount :: real
  prNetChange :: real
  prNewBalance :: real
  prPercentageChange :: real
  prLossMultiplier :: "real option"
  prWinningPositions :: "cell list"
  prUserBalance :: real
  prInitialBalance :: real

definition MAX_BET :: real where
  "MAX_BET = 1000000"

subsection \<open>Solo play: the doubles of the loss multiplier\<close>

text \<open>The value of a literal and of an operation on doubles is the exact value rounded
  to the nearest number with a significand of 53 bits, a tie going to the even
  significand. \<open>pow2\<close> is a power of two with an integer exponent, \<open>exponentOf x\<close> the
  exponent of the binade of \<open>x\<close>. The exponent range is not bounded: the numbers of
  the loss multiplier are far from overflow and from the subnormal range.\<close>

definition pow2 :: "int \<Rightarrow> real" where
  "pow2 k = (if 0 \<le> k then 2 ^ nat k else 1 / 2 ^ nat (- k))"

definition roundEven :: "real \<Rightarrow> int" where
  "roundEven y =
     (let f = \<lfloor>y\<rfloor>; d = y - of_int f
      in if d < 1/2 then f else if 1/2 < d then f + 1 else if even f then f else f + 1)"

definition exponentOf :: "real \<Rightarrow> int" where
  "exponentOf x = \<lfloor>log 2 \<bar>x\<bar>\<rfloor>"

definition fl :: "real \<Rightarrow> real" where
  "fl x =
     (if x = 0 then 0
      else of_int (roundEven (x / pow2 (exponentOf x - 52))) * pow2 (exponentOf x - 52))"

text \<open>The four bands of the loss multiplier: \<open>random\<close> selects the band, \<open>r\<close> the
  place in it. The literals 0.25 and 1.0 are doubles as they stand.\<close>

definition lossMultiplier :: "real \<Rightarrow> real \<Rightarrow> real" where
  "lossMultiplier random r =
     (if random < 0.25 then fl (1.0 + fl (r * fl 0.15))
      else if random < fl 0.6 then fl (fl 1.15 + fl (r * fl 0.20))
      else if random < fl 0.85 then fl (fl 1.35 + fl (r * 0.25))
      else fl (fl 1.6 + fl (r * fl 0.20)))"

subsection \<open>Solo play: the request\<close>

text \<open>Lines 227--267: the amount debited. Without a win two random numbers are drawn
  and the skewed loss is clamped by the balance; with a win the stake is debited.\<close>

definition actualLossOf :: "real \<Rightarrow> real \<Rightarrow> real \<Rightarrow> real stream \<Rightarrow> real \<times> real stream" where
  "actualLossOf bet userBalance actualWin rnd =
     (case (if actualWin = 0 then
              (let random = shd rnd;
                   actualLoss = bet * lossMultiplier random (shd (stl rnd));
                   actualLoss' = (if actualLoss > userBalance then userBalance else actualLoss)
               in (max 0 actualLoss', stl (stl rnd)))
            else (bet, rnd)) of
        (actualLoss, rnd') \<Rightarrow> (max 0 (min actualLoss userBalance), rnd'))"

text \<open>The \<^verbatim>\<open>catch\<close> block of \<^verbatim>\<open>playGame\<close> for an error that is no
  \<^verbatim>\<open>AppError\<close>.\<close>

fun joinWith :: "string \<Rightarrow> string list \<Rightarrow> string" where
  "joinWith sep [] = []"
| "joinWith sep [x] = x"
| "joinWith sep (x # y # ys) = x @ sep @ joinWith sep (y # ys)"

fun toAppError :: "dbError \<Rightarrow> appError" where
  "toAppError (ValidationError msgs) = AppError (''Validation error: '' @ joinWith '', '' msgs) 400"
| "toAppError (OtherError msg) =
     AppError (if msg = [] then ''An error occurred while playing the game'' else msg) 500"

text \<open>\<^verbatim>\<open>playGame\<close> for the authenticated user \<open>uid\<close>. An error leaves the store as it
  was (the database transaction is aborted); success commits the new balance, one
  transaction and one balance-history record. The messages are written without the
  currency sign.\<close>

definition playGame ::
  "reqBet \<Rightarrow> string \<Rightarrow> store \<Rightarrow> real stream \<Rightarrow> (appError + playResponse) \<times> store \<times> real stream" where
  "playGame body uid db rnd =
     (case body of
        Falsy \<Rightarrow> (Inl (AppError ''Bet amount is required'' 400), db, rnd)
      | Truthy NaN \<Rightarrow> (Inl (AppError ''Invalid bet amount format'' 400), db, rnd)
      | Truthy (Num bet) \<Rightarrow>
          if bet \<le> 0 then (Inl (AppError ''Bet amount must be greater than 0'' 400), db, rnd)
          else if bet < 1 then (Inl (AppError ''Minimum bet amount is 1'' 400), db, rnd)
          else if bet > MAX_BET then (Inl (AppError ''Maximum bet amount is 1,000,000'' 400), db, rnd)
          else
            (case findById db (Some uid) of
               Inl e \<Rightarrow> (Inl (toAppError e), db, rnd)
             | Inr None \<Rightarrow> (Inl (AppError ''User not found'' 404), db, rnd)
             | Inr (Some usr) \<Rightarrow>
                 if status usr \<noteq> ''active'' \<and> status usr \<noteq> ''pending''
                 then (Inl (AppError (''Account is '' @ status usr
                          @ ''. Please contact support if you believe this is an error.'') 403),
                       db, rnd)
                 else
                   (let userBalance = balance usr in
                    if userBalance < bet then (Inl (AppError ''Insufficient balance'' 400), db, rnd)
                    else
                      (let initialBalance = balance usr in
                       case generateReelResult bet rnd of (gameResult, rnd1) \<Rightarrow>
                      (let actualWin = max 0 (rrWinAmount gameResult) in
                       case actualLossOf bet userBalance actualWin rnd1 of (actualLoss, rnd2) \<Rightarrow>
                      (let newBalanceAfterLoss = userBalance - actualLoss;
                           usr1 = usr\<lparr>balance := max 0 newBalanceAfterLoss\<rparr>;
                           netChange = actualWin - actualLoss;
                           newBalance = balance usr1 + actualWin;
                           percentageChange =
                             (if initialBalance > 0 then (netChange / initialBalance) * 100 else 0);
                           usr1' = usr1\<lparr>balance := newBalance\<rparr>;
                           usr2 = (if actualWin > 0
                                   then usr1'\<lparr>totalWinnings := totalWinnings usr1' + actualWin\<rparr>
                                   else usr1);
                           finalBalance = balance usr2;
                           saves = andThen (saveUser uid usr1 db)
                                     (\<lambda>dbA. if actualWin > 0
                                             then andThen (saveUser uid usr1' dbA) (saveUser uid usr2)
                                             else Inr dbA)
                       in case saves of
                            Inl e \<Rightarrow> (Inl (toAppError e), db, rnd2)
                          | Inr dbS \<Rightarrow>
                          if finalBalance < 0
                          then (Inl (AppError ''Invalid balance calculation'' 500), db, rnd2)
                          else
                            (let mult = (if actualWin = 0 then Some (actualLoss / bet) else None);
                                 tx = \<lparr> txUser = uid,
                                        txType = (if actualWin > 0 then game_win else game_loss),
                                        txAmount = \<bar>netChange\<bar>,
                                        txStatus = ''completed'',
                                        txDescription = (if actualWin > 0 then ''Sweet Bonanza - Win''
                                                         else ''Sweet Bonanza - Loss''),
                                        txMetadata =
                                          SoloMeta bet actualLoss actualWin netChange percentageChange
                                            initialBalance finalBalance mult
                                            (rrReels gameResult) (rrWinningPositions gameResult) \<rparr>;
                                 h = \<lparr> bhUser = uid,
                                       bhChangeType = (if actualWin > 0 then ChangeWin else ChangeLoss),
                                       bhPreviousBalance = initialBalance,
                                       bhNewBalance = finalBalance,
                                       bhChange = netChange,
                                       bhPercentageChange = percentageChange,
                                       bhReferenceId = length (transactions dbS),
                                       bhOutcomeAmount = \<bar>netChange\<bar> \<rparr>
                             in case andThen (createTransaction tx dbS)
                                       (\<lambda>db1. andThen (createBalanceHistory h db1) commitTransaction) of
                                  Inl e \<Rightarrow> (Inl (toAppError e), db, rnd2)
                                | Inr db2 \<Rightarrow>
                                (Inr \<lparr> prReels = rrReels gameResult,
                                      prBetAmount = bet,
                                      prActualLoss = actualLoss,
                                      prWinAmount = actualWin,
                                      prNetChange = netChange,
                                      prNewBalance = finalBalance,
                                      prPercentageChange = percentageChange,
                                      prLossMultiplier = mult,
                                      prWinningPositions = rrWinningPositions gameResult,
                                      prUserBalance = finalBalance,
                                      prInitialBalance = initialBalance \<rparr>,
                                 db2, rnd2))))))))"

subsection \<open>The contract of the random source\<close>

text \<open>Every value \<^verbatim>\<open>Math.random()\<close> returns lies in \<open>[0, 1)\<close>.\<close>

definition unitDraws :: "real stream \<Rightarrow> bool" where
  "unitDraws rnd = (\<forall>x \<in> sset rnd. 0 \<le> x \<and> x < 1)"

subsection \<open>A concrete round\<close>

text \<open>Two funded players: \<open>A\<close> stakes 20 on \<open>win\<close>, \<open>B\<close> stakes 50 on \<open>loss\<close>. The
  database rejects no call.\<close>

definition playerA :: user where
  "playerA = \<lparr> balance = 100, status = ''active'', totalWinnings = 0, currency = None \<rparr>"

definition playerB :: user where
  "playerB = \<lparr> balance = 30, status = ''active'', totalWinnings = 0, currency = None \<rparr>"

definition demoStore :: store where
  "demoStore = \<lparr> users = [''A'' \<mapsto> playerA, ''B'' \<mapsto> playerB],
                 transactions = [], balanceHistories = [], rejects = (\<lambda>call. None) \<rparr>"

definition betA :: bet where
  "betA = \<lparr> userId = Some ''A'', betAmount = Num 20, side = Win \<rparr>"

definition betB :: bet where
  "betB = \<lparr> userId = Some ''B'', betAmount = Num 50, side = Loss \<rparr>"

text \<open>A bet whose user id the database cannot cast, and the store that rejects the
  lookup of that id.\<close>

definition betGuest :: bet where
  "betGuest = \<lparr> userId = Some ''guest-17'', betAmount = Num 5, side = Win \<rparr>"

definition castingStore :: store where
  "castingStore =
     demoStore\<lparr> rejects :=
       (\<lambda>call. case call of
                   FindUser uid \<Rightarrow>
                     if uid = Some ''guest-17''
                     then Some (OtherError ''Cast to ObjectId failed'') else None
                 | _ \<Rightarrow> None) \<rparr>"

definition demoSession :: "phase \<Rightarrow> int \<Rightarrow> nat \<Rightarrow> session" where
  "demoSession p t c =
     \<lparr> roundId = 1700000000000, phase = p, timeLeft = t, roundCount = c,
       roundCycle = Some c, bets = [betA, betB], adminDecision = None, result = None,
       lastRoundId = None \<rparr>"

subsection \<open>A concrete solo play and concrete grids\<close>

text \<open>Draws that fill the 6 by 3 grid with two grapes, two oranges and two lemons per
  row (no combination). They are followed by the two draws of the loss multiplier: in
  \<open>lossDraws\<close> both are one half; in \<open>edgeDraws\<close> the first is the double 0.85 and
  the second the largest double below 1 on the grid of \<^verbatim>\<open>Math.random()\<close>.\<close>

definition noComboDraws :: "real list" where
  "noComboDraws = [0.1, 0.1, 0.1, 0.4, 0.4, 0.4, 0.6, 0.6, 0.6,
                   0.1, 0.1, 0.1, 0.4, 0.4, 0.4, 0.6, 0.6, 0.6]"

definition lossDraws :: "real stream" where
  "lossDraws = (noComboDraws @ [0.5, 0.5]) @- sconst 0"

definition edgeDraws :: "real stream" where
  "edgeDraws = (noComboDraws @ [fl 0.85, 1 - 1 / 2 ^ 52]) @- sconst 0"

definition soloStore :: store where
  "soloStore = \<lparr> users = [''A'' \<mapsto> playerA], transactions = [], balanceHistories = [],
                 rejects = (\<lambda>call. None) \<rparr>"

definition lossResponse :: playResponse where
  "lossResponse =
     \<lparr> prReels = [[SGrapes, SGrapes, SGrapes], [SOrange, SOrange, SOrange], [SLemon, SLemon, SLemon],
                  [SGrapes, SGrapes, SGrapes], [SOrange, SOrange, SOrange], [SLemon, SLemon, SLemon]],
       prBetAmount = 10, prActualLoss = 12.5, prWinAmount = 0, prNetChange = - 12.5,
       prNewBalance = 87.5, prPercentageChange = - 12.5, prLossMultiplier = Some 1.25,
       prWinningPositions = [], prUserBalance = 87.5, prInitialBalance = 100 \<rparr>"

text \<open>Grids with four and with three scatter symbols and no line combination.\<close>

definition fourScatterGrid :: "soloSymbol list list" where
  "fourScatterGrid =
     [[SStar, SStar, SGrapes], [SGem, SGem, SOrange], [SGrapes, SOrange, SLemon],
      [SOrange, SLemon, SGrapes], [SLemon, SGrapes, SOrange], [SGrapes, SOrange, SLemon]]"

definition threeScatterGrid :: "soloSymbol list list" where
  "threeScatterGrid =
     [[SStar, SStar, SGrapes], [SGem, SLemon, SOrange], [SGrapes, SOrange, SLemon],
      [SOrange, SLemon, SGrapes], [SLemon, SGrapes, SOrange], [SGrapes, SOrange, SLemon]]"

subsection \<open>Concrete draws for the lobby generator\<close>

text \<open>Draws that fill the grid with seven \<open>Oval\<close> followed by twenty-three \<open>Grapes\<close>
  and then always pick \<open>Oval\<close>; the grid they produce and the grid the \<open>loss\<close> branch
  turns it into.\<close>

definition cappedDraws :: "real stream" where
  "cappedDraws = (replicate 7 0 @ replicate 23 (1/5)) @- sconst 0"

definition cappedStart :: "symbol list list" where
  "cappedStart =
     [[Oval, Oval, Oval, Oval, Oval], [Oval, Oval, Grapes, Grapes, Grapes],
      [Grapes, Grapes, Grapes, Grapes, Grapes], [Grapes, Grapes, Grapes, Grapes, Grapes],
      [Grapes, Grapes, Grapes, Grapes, Grapes], [Grapes, Grapes, Grapes, Grapes, Grapes]]"

definition cappedEnd :: "symbol list list" where
  "cappedEnd =
     [[Oval, Oval, Oval, Oval, Oval], [Oval, Oval, Grapes, Grapes, Grapes],
      [Grapes, Grapes, Grapes, Grapes, Oval], [Oval, Oval, Oval, Oval, Oval],
      [Oval, Oval, Oval, Oval, Oval], [Oval, Oval, Oval, Oval, Oval]]"

subsection \<open>A concrete lobby state\<close>

text \<open>The round of \<open>A\<close> and \<open>B\<close> in its last second of \<open>SPINNING\<close>, a tick that fails
  as it enters the phase change, a tick that fails after it, and a tick that does not
  fail and during which no request arrives.\<close>

definition demoWorld :: world where
  "demoWorld = \<lparr> wSession = demoSession SPINNING 1 5, wPlayers = {},
                 wStore = demoStore, wRandom = cappedDraws \<rparr>"

text \<open>The same round at cycle position 3 with the override \<open>loss\<close> stored; a tick
  during whose database calls the override \<open>win\<close> arrives; a world whose draws make
  the \<open>win\<close> branch of the generator run forever (position 3 decides \<open>win\<close> for the
  bets of \<open>A\<close> and \<open>B\<close>); and the round of a guest and \<open>B\<close> on the store that
  rejects the guest's lookup.\<close>

definition overrideWorld :: world where
  "overrideWorld = \<lparr> wSession = setAdminDecision (Some Loss) (demoSession SPINNING 1 3),
                     wPlayers = {}, wStore = demoStore, wRandom = cappedDraws \<rparr>"





definition quietEnv :: tickEnv where
  "quietEnv = \<lparr> now = 1700000030000, secondIsZero = False, failure = NoFailure,
                arrivals = [], engineSort = insertionSort \<rparr>"

definition lateOverrideEnv :: tickEnv where
  "lateOverrideEnv = \<lparr> now = 1700000030000, secondIsZero = False, failure = NoFailure,
                       arrivals = [Override (Some Win)], engineSort = insertionSort \<rparr>"

section \<open>Properties\<close>

subsection \<open>Facts about bet totals\<close>

lemma foldl_stake_acc:
  "foldl (\<lambda>sum b. sum + orZero (betAmount b)) a bs
     = a + sum_list (map (\<lambda>b. orZero (betAmount b)) bs)"
  by (induction bs arbitrary: a) simp_all

lemma betsTotal_sum_list:
  "betsTotal sd bs = sum_list (map (\<lambda>b. orZero (betAmount b)) (filter (\<lambda>b. side b = sd) bs))"
  by (simp add: betsTotal_def foldl_stake_acc)

lemma betsTotal_append:
  "betsTotal sd (bs @ cs) = betsTotal sd bs + betsTotal sd cs"
  by (simp add: betsTotal_sum_list)

subsection \<open>The decision policy\<close>

text \<open>
  C3. With no admin override, the decision is the minority-stake side at cycle
  positions 1 to 4 and the majority-stake side at position 5. The majority side is
  the side with the greater summed stake, and equal sums make \<open>win\<close> the majority.
  The sums are written out as sums over the bets of each side.
\<close>

theorem cycle_decision_without_override:
  assumes "adminDecision s = None"
  shows "(let W = sum_list (map (\<lambda>b. orZero (betAmount b)) (filter (\<lambda>b. side b = Win) (bets s)));
              L = sum_list (map (\<lambda>b. orZero (betAmount b)) (filter (\<lambda>b. side b = Loss) (bets s)));
              majority = (if L > W then Loss else Win);
              minority = (if L > W then Win else Loss)
          in (roundCycle s \<in> {Some 1, Some 2, Some 3, Some 4} \<longrightarrow> calculateDecision s = minority)
           \<and> (roundCycle s = Some 5 \<longrightarrow> calculateDecision s = majority))"
  using assms
  by (auto simp: calculateDecision_def Let_def betsTotal_sum_list)

theorem cycle_decision_without_override_witness:
  "adminDecision (demoSession SPINNING 0 5) = None
   \<and> calculateDecision (demoSession SPINNING 0 5) = Loss
   \<and> calculateDecision (demoSession SPINNING 0 3) = Win"
proof -
  have a5: "adminDecision (demoSession SPINNING 0 5) = None"
    and a3: "adminDecision (demoSession SPINNING 0 3) = None"
    by (simp_all add: demoSession_def)
  show ?thesis
    using cycle_decision_without_override [OF a5] cycle_decision_without_override [OF a3]
    by (simp add: demoSession_def betA_def betB_def Let_def)
qed

subsection \<open>Bet placement\<close>

text \<open>
  C7. \<open>addBet\<close> accepts a bet exactly when the phase is \<open>BETTING\<close> and at least one
  second is left. An accepted bet is appended to the round's bets, and a snapshot
  taken afterwards counts one bet more and shows the stake added to the total of the
  bet's side. Otherwise the call is rejected and the session is returned as it was.
\<close>

theorem addBet_accepted_iff_open:
  "(fst (addBet uid amt sd s) = Accepted \<longleftrightarrow> phase s = BETTING \<and> timeLeft s \<ge> 1)
   \<and> (phase s = BETTING \<and> timeLeft s \<ge> 1 \<longrightarrow>
        (let s' = snd (addBet uid amt sd s);
             before = fst (getState caller players s);
             after = fst (getState caller' players' s')
         in bets s' = bets s @ [\<lparr>userId = uid, betAmount = amt, side = sd\<rparr>]
          \<and> s' = s\<lparr>bets := bets s'\<rparr>
          \<and> betsCount after = betsCount before + 1
          \<and> betsTotalsWin after = betsTotalsWin before + (if sd = Win then orZero amt else 0)
          \<and> betsTotalsLoss after = betsTotalsLoss before + (if sd = Loss then orZero amt else 0)))
   \<and> (\<not> (phase s = BETTING \<and> timeLeft s \<ge> 1) \<longrightarrow>
        (\<exists>msg. fst (addBet uid amt sd s) = Rejected msg) \<and> snd (addBet uid amt sd s) = s)"
  by (auto simp: addBet_def getState_def Let_def betsTotal_append betsTotal_sum_list)

theorem addBet_accepted_iff_open_witness:
  "fst (addBet (Some ''C'') (Num 5) Win (demoSession BETTING 1 2)) = Accepted
   \<and> betsCount (fst (getState None {} (snd (addBet (Some ''C'') (Num 5) Win (demoSession BETTING 1 2))))) = 3
   \<and> betsTotalsWin (fst (getState None {} (snd (addBet (Some ''C'') (Num 5) Win (demoSession BETTING 1 2))))) = 25
   \<and> snd (addBet (Some ''C'') (Num 5) Win (demoSession BETTING 0 2)) = demoSession BETTING 0 2
   \<and> snd (addBet (Some ''C'') (Num 5) Win (demoSession SPINNING 9 2)) = demoSession SPINNING 9 2"
  using addBet_accepted_iff_open [of "Some ''C''" "Num 5" Win "demoSession BETTING 1 2" None "{}" None "{}"]
        addBet_accepted_iff_open [of "Some ''C''" "Num 5" Win "demoSession BETTING 0 2" None "{}" None "{}"]
        addBet_accepted_iff_open [of "Some ''C''" "Num 5" Win "demoSession SPINNING 9 2" None "{}" None "{}"]
  by (simp add: demoSession_def betA_def betB_def getState_def betsTotal_def Let_def)

subsection \<open>Solo play: the random source stays within its contract\<close>

lemma unitDraws_stl: "unitDraws s \<Longrightarrow> unitDraws (stl s)"
  unfolding unitDraws_def by (meson stl_sset)

lemma unitDraws_shd: "unitDraws s \<Longrightarrow> 0 \<le> shd s \<and> shd s < 1"
  unfolding unitDraws_def by (meson shd_sset)

lemma fillWith_unitDraws:
  assumes "\<And>r. unitDraws r \<Longrightarrow> unitDraws (snd (f r))"
  shows "unitDraws r \<Longrightarrow> unitDraws (snd (fillWith n f r))"
proof (induction n arbitrary: r)
  case 0
  then show ?case by simp
next
  case (Suc n)
  obtain x r1 where f: "f r = (x, r1)" by (cases "f r")
  obtain xs r2 where g: "fillWith n f r1 = (xs, r2)" by (cases "fillWith n f r1")
  have "unitDraws r1" using assms [OF Suc.prems] f by simp
  then have "unitDraws r2" using Suc.IH [of r1] g by simp
  then show ?case by (simp add: f g)
qed

lemma getWeightedSymbol_unitDraws: "unitDraws r \<Longrightarrow> unitDraws (snd (getWeightedSymbol r))"
  by (simp add: getWeightedSymbol_def Let_def unitDraws_stl)

lemma comboWin_unitDraws:
  "unitDraws (snd (snd st)) \<Longrightarrow> unitDraws (snd (snd (comboWin bet e st)))"
  by (cases st) (auto simp: comboWin_def unitDraws_stl)

lemma comboWin_fold_unitDraws:
  "unitDraws (snd (snd st)) \<Longrightarrow> unitDraws (snd (snd (foldl (\<lambda>st e. comboWin bet e st) st es)))"
  by (induction es arbitrary: st) (simp_all add: comboWin_unitDraws)

lemma scatterWin_unitDraws:
  "unitDraws (snd (snd st)) \<Longrightarrow> unitDraws (snd (snd (scatterWin bet rls st)))"
  by (cases st) (auto simp: scatterWin_def Let_def unitDraws_stl)

lemma reelWin_unitDraws:
  assumes "unitDraws r"
  shows "unitDraws (snd (reelWin bet rls r))"
proof -
  let ?st = "scatterWin bet rls (foldl (\<lambda>st e. comboWin bet e st) (0, [], r) (symbolCounts rls))"
  have "unitDraws (snd (snd ?st))"
    by (rule scatterWin_unitDraws, rule comboWin_fold_unitDraws) (simp add: assms)
  moreover obtain w ps r' where "?st = (w, ps, r')" by (cases ?st)
  ultimately show ?thesis by (simp add: reelWin_def)
qed

lemma generateReelResult_unitDraws:
  assumes "unitDraws rnd"
  shows "unitDraws (snd (generateReelResult bet rnd))"
proof -
  have "unitDraws (snd (fillWith 6 (fillWith 3 getWeightedSymbol) rnd))"
    by (rule fillWith_unitDraws [OF _ assms], rule fillWith_unitDraws [OF getWeightedSymbol_unitDraws])
  moreover obtain rls r1 where "fillWith 6 (fillWith 3 getWeightedSymbol) rnd = (rls, r1)"
    by (cases "fillWith 6 (fillWith 3 getWeightedSymbol) rnd")
  ultimately show ?thesis
    by (simp add: generateReelResult_def reelWin_unitDraws)
qed

subsection \<open>Solo play: what a request writes\<close>

lemmas db_defs = findById_def saveUser_def incBalance_def createTransaction_def
  createBalanceHistory_def commitTransaction_def andThen_def

lemma playGame_Inl_store:
  "playGame body uid db rnd = (Inl e, db', rnd') \<Longrightarrow> db' = db"
  by (auto simp: playGame_def Let_def
           split: reqBet.splits jsnum.splits option.splits sum.splits if_splits prod.splits)

lemma playGame_Inr_shape:
  assumes "playGame body uid db rnd = (Inr resp, db', rnd')"
  shows "\<exists>tx h. transactions db' = transactions db @ [tx]
              \<and> balanceHistories db' = balanceHistories db @ [h]
              \<and> txUser tx = uid \<and> bhUser h = uid
              \<and> bhReferenceId h = length (transactions db)"
  using assms
  by (auto simp: playGame_def Let_def db_defs
           split: reqBet.splits jsnum.splits option.splits sum.splits if_splits prod.splits)

lemma playGame_Inr_records:
  assumes "fst (playGame body uid db rnd) = Inr resp"
  shows "\<exists>tx h. transactions (fst (snd (playGame body uid db rnd))) = transactions db @ [tx]
              \<and> balanceHistories (fst (snd (playGame body uid db rnd))) = balanceHistories db @ [h]
              \<and> txUser tx = uid \<and> bhUser h = uid
              \<and> bhReferenceId h = length (transactions db)"
proof -
  obtain r db' rnd' where p: "playGame body uid db rnd = (r, db', rnd')"
    by (cases "playGame body uid db rnd")
  with assms have "playGame body uid db rnd = (Inr resp, db', rnd')" by simp
  from playGame_Inr_shape [OF this] show ?thesis by (simp add: p)
qed

lemma playGame_Inl_unchanged:
  assumes "fst (playGame body uid db rnd) = Inl e"
  shows "fst (snd (playGame body uid db rnd)) = db"
proof -
  obtain r db' rnd' where p: "playGame body uid db rnd = (r, db', rnd')"
    by (cases "playGame body uid db rnd")
  with assms have "playGame body uid db rnd = (Inl e, db', rnd')" by simp
  from playGame_Inl_store [OF this] show ?thesis by (simp add: p)
qed

lemma playGame_Inr_facts:
  assumes "playGame body uid db rnd = (Inr resp, db', rnd')"
  shows "\<exists>bet usr. body = Truthy (Num bet) \<and> 1 \<le> bet \<and> bet \<le> MAX_BET
           \<and> users db uid = Some usr \<and> bet \<le> balance usr
           \<and> prBetAmount resp = bet
           \<and> prInitialBalance resp = balance usr
           \<and> prWinAmount resp = max 0 (rrWinAmount (fst (generateReelResult bet rnd)))
           \<and> prActualLoss resp =
               fst (actualLossOf bet (balance usr) (prWinAmount resp) (snd (generateReelResult bet rnd)))
           \<and> prNewBalance resp = max 0 (balance usr - prActualLoss resp) + prWinAmount resp
           \<and> prNetChange resp = prWinAmount resp - prActualLoss resp
           \<and> prLossMultiplier resp =
               (if prWinAmount resp = 0 then Some (prActualLoss resp / bet) else None)
           \<and> map_option balance (users db' uid) = Some (prNewBalance resp)"
  using assms
  by (auto simp: playGame_def Let_def db_defs
           split: reqBet.splits jsnum.splits option.splits sum.splits if_splits prod.splits)

subsection \<open>Solo play: evaluation of the concrete grids\<close>

lemma noCombo_reels:
  "generateReelResult 10 (noComboDraws @- s) =
     (\<lparr> rrReels = prReels lossResponse, rrWinAmount = 0, rrWinningPositions = [] \<rparr>, s)"
  by (simp add: generateReelResult_def noComboDraws_def getWeightedSymbol_def SYMBOL_WEIGHTS_def
        eval_nat_numeral reelWin_def symbolCounts_def enumerate_eq_zip comboWin_def scatterWin_def
        scatterCount_def isScatter_def scatterPositions_def upt_rec Let_def lossResponse_def)

lemma four_scatter_count: "scatterCount fourScatterGrid = 4"
  by (simp add: scatterCount_def fourScatterGrid_def isScatter_def)

lemma three_scatter_count: "scatterCount threeScatterGrid = 3"
  by (simp add: scatterCount_def threeScatterGrid_def isScatter_def)

lemma four_scatter_counts:
  "foldl (\<lambda>st e. comboWin bet e st) (0, [], rnd) (symbolCounts fourScatterGrid) = (0, [], rnd)"
  by (simp add: fourScatterGrid_def symbolCounts_def enumerate_eq_zip upt_rec comboWin_def)

subsection \<open>Rounding of doubles\<close>

lemma pow2_pos: "0 < pow2 k"
  by (simp add: pow2_def)

lemma pow2_powr: "pow2 k = 2 powr (of_int k)"
proof (cases "0 \<le> k")
  case True
  then have "(2::real) powr (of_int k) = 2 powr (real (nat k))" by simp
  also have "\<dots> = 2 ^ nat k" by (rule powr_realpow) simp
  finally show ?thesis using True by (simp add: pow2_def)
next
  case False
  then have "(2::real) powr (of_int k) = 2 powr (- real (nat (- k)))" by simp
  also have "\<dots> = 1 / 2 powr (real (nat (- k)))" by (simp add: powr_minus_divide)
  also have "\<dots> = 1 / 2 ^ nat (- k)" by (simp add: powr_realpow)
  finally show ?thesis using False by (simp add: pow2_def)
qed

lemma pow2_add: "pow2 (a + b) = pow2 a * pow2 b"
  by (simp add: pow2_powr powr_add)

lemma pow2_less: "pow2 a < pow2 b \<Longrightarrow> a < b"
  by (simp add: pow2_powr)

lemma pow2_nat: "0 \<le> k \<Longrightarrow> pow2 k = of_int (2 ^ nat k)"
  by (simp add: pow2_def)

lemma exponentOf_eq:
  assumes "pow2 e \<le> x" and "x < pow2 (e + 1)"
  shows "exponentOf x = e"
proof -
  have x: "0 < x" using pow2_pos [of e] assms(1) by linarith
  have "of_int e \<le> log 2 x" using assms(1) x by (simp add: le_log_iff pow2_powr)
  moreover have "log 2 x < of_int e + 1" using assms(2) x by (simp add: log_less_iff pow2_powr)
  ultimately show ?thesis using x by (simp add: exponentOf_def floor_eq_iff)
qed

lemma exponentOf_bounds:
  assumes "0 < x"
  shows "pow2 (exponentOf x) \<le> x" and "x < pow2 (exponentOf x + 1)"
proof -
  have a: "of_int \<lfloor>log 2 x\<rfloor> \<le> log 2 x" and b: "log 2 x < of_int (\<lfloor>log 2 x\<rfloor> + 1)" by linarith+
  have "2 powr (of_int \<lfloor>log 2 x\<rfloor>) \<le> x"
    using a assms le_log_iff [of 2 x "of_int \<lfloor>log 2 x\<rfloor>"] by simp
  then show "pow2 (exponentOf x) \<le> x"
    using assms by (simp add: exponentOf_def pow2_powr)
  have "x < 2 powr (of_int (\<lfloor>log 2 x\<rfloor> + 1))"
    using b assms log_less_iff [of 2 x "of_int (\<lfloor>log 2 x\<rfloor> + 1)"] by simp
  then show "x < pow2 (exponentOf x + 1)"
    using assms by (simp add: exponentOf_def pow2_powr)
qed

lemma roundEven_le: "y \<le> of_int n \<Longrightarrow> roundEven y \<le> n"
  unfolding roundEven_def Let_def by (auto; linarith)

lemma roundEven_ge: "of_int n \<le> y \<Longrightarrow> n \<le> roundEven y"
  unfolding roundEven_def Let_def by (auto; linarith)

lemma roundEven_mono:
  assumes "x \<le> y"
  shows "roundEven x \<le> roundEven y"
proof (cases "\<lfloor>x\<rfloor> = \<lfloor>y\<rfloor>")
  case True
  then show ?thesis using assms unfolding roundEven_def Let_def by auto
next
  case False
  then have "\<lfloor>x\<rfloor> + 1 \<le> \<lfloor>y\<rfloor>" using floor_mono [OF assms] by linarith
  moreover have "roundEven x \<le> \<lfloor>x\<rfloor> + 1" unfolding roundEven_def Let_def by auto
  moreover have "\<lfloor>y\<rfloor> \<le> roundEven y" unfolding roundEven_def Let_def by auto
  ultimately show ?thesis by linarith
qed

lemma fl_eval:
  assumes "pow2 e \<le> x" and "x < pow2 (e + 1)"
  shows "fl x = of_int (roundEven (x / pow2 (e - 52))) * pow2 (e - 52)"
proof -
  have "x \<noteq> 0" using pow2_pos [of e] assms(1) by linarith
  then show ?thesis by (simp add: fl_def exponentOf_eq [OF assms])
qed

lemma fl_nonneg:
  assumes "0 \<le> x"
  shows "0 \<le> fl x"
proof (cases "x = 0")
  case True
  then show ?thesis by (simp add: fl_def)
next
  case False
  have "0 \<le> x / pow2 (exponentOf x - 52)" using assms pow2_pos [of "exponentOf x - 52"] by simp
  then have "0 \<le> roundEven (x / pow2 (exponentOf x - 52))" using roundEven_ge [of 0] by simp
  then show ?thesis using False pow2_pos [of "exponentOf x - 52"] by (simp add: fl_def)
qed

lemma fl_le_double:
  assumes "0 \<le> x" and "x \<le> c" and "c = of_int n * pow2 j" and "c < pow2 (j + 53)"
  shows "fl x \<le> c"
proof (cases "x = 0")
  case True
  then show ?thesis using assms by (simp add: fl_def)
next
  case False
  then have x: "0 < x" using assms(1) by simp
  define e where "e = exponentOf x"
  define u where "u = pow2 (e - 52)"
  have up: "0 < u" unfolding u_def by (rule pow2_pos)
  have "pow2 e < pow2 (j + 53)"
    using exponentOf_bounds(1) [OF x] assms(2,4) unfolding e_def by linarith
  then have "e < j + 53" by (rule pow2_less)
  then have k: "0 \<le> j - (e - 52)" by simp
  have "pow2 j = pow2 ((j - (e - 52)) + (e - 52))" by simp
  also have "\<dots> = pow2 (j - (e - 52)) * u" unfolding u_def by (rule pow2_add)
  also have "\<dots> = of_int (2 ^ nat (j - (e - 52))) * u" by (simp only: pow2_nat [OF k])
  finally have c: "c = of_int (n * 2 ^ nat (j - (e - 52))) * u"
    using assms(3) by simp
  have "x / u \<le> of_int (n * 2 ^ nat (j - (e - 52)))"
    using assms(2) up unfolding c by (simp add: field_simps)
  then have "roundEven (x / u) \<le> n * 2 ^ nat (j - (e - 52))" by (rule roundEven_le)
  then have "of_int (roundEven (x / u)) * u \<le> of_int (n * 2 ^ nat (j - (e - 52))) * u"
    using up by (simp only: mult_le_cancel_right_pos of_int_le_iff)
  then show ?thesis using False unfolding c fl_def u_def e_def by simp
qed

lemma fl_unit:
  assumes "1 \<le> x" and "x < 2"
  shows "fl x = of_int (roundEven (x * 2 ^ 52)) / 2 ^ 52"
proof -
  have "pow2 0 \<le> x" "x < pow2 (0 + 1)" using assms by (simp_all add: pow2_def)
  from fl_eval [OF this] show ?thesis by (simp add: pow2_def)
qed

lemma roundEven_eval:
  assumes "of_int n \<le> y" and "y < of_int n + 1/2"
  shows "roundEven y = n"
proof -
  have "\<lfloor>y\<rfloor> = n" using assms by (simp add: floor_eq_iff)
  then show ?thesis using assms unfolding roundEven_def Let_def by simp
qed

lemma roundEven_eval_up:
  assumes "of_int n - 1/2 < y" and "y \<le> of_int n"
  shows "roundEven y = n"
proof (cases "y = of_int n")
  case True
  then show ?thesis unfolding roundEven_def Let_def by simp
next
  case False
  then have "\<lfloor>y\<rfloor> = n - 1" using assms by (simp add: floor_eq_iff)
  then show ?thesis using assms unfolding roundEven_def Let_def by simp
qed

lemma d015: "fl (3 / 20) = 5404319552844595 / 36028797018963968"
proof -
  have "pow2 (- 3) \<le> 3 / 20" "(3 / 20 :: real) < pow2 (- 3 + 1)" by (simp_all add: pow2_def)
  from fl_eval [OF this] show ?thesis
    by (simp add: pow2_def roundEven_eval [of 5404319552844595])
qed

lemma d02: "fl (1 / 5) = 3602879701896397 / 18014398509481984"
proof -
  have "pow2 (- 3) \<le> 1 / 5" "(1 / 5 :: real) < pow2 (- 3 + 1)" by (simp_all add: pow2_def)
  from fl_eval [OF this] show ?thesis
    by (simp add: pow2_def roundEven_eval_up [of 7205759403792794])
qed

lemma d06: "fl (3 / 5) = 5404319552844595 / 9007199254740992"
proof -
  have "pow2 (- 1) \<le> 3 / 5" "(3 / 5 :: real) < pow2 (- 1 + 1)" by (simp_all add: pow2_def)
  from fl_eval [OF this] show ?thesis
    by (simp add: pow2_def roundEven_eval [of 5404319552844595])
qed

lemma d085: "fl (17 / 20) = 7656119366529843 / 9007199254740992"
proof -
  have "pow2 (- 1) \<le> 17 / 20" "(17 / 20 :: real) < pow2 (- 1 + 1)" by (simp_all add: pow2_def)
  from fl_eval [OF this] show ?thesis
    by (simp add: pow2_def roundEven_eval [of 7656119366529843])
qed

lemma d115: "fl (23 / 20) = 2589569785738035 / 2251799813685248"
  by (simp add: fl_unit roundEven_eval [of 5179139571476070])

lemma d135: "fl (27 / 20) = 3039929748475085 / 2251799813685248"
  by (simp add: fl_unit roundEven_eval_up [of 6079859496950170])

lemma d16: "fl (8 / 5) = 3602879701896397 / 2251799813685248"
  by (simp add: fl_unit roundEven_eval_up [of 7205759403792794])

lemma d18: "fl (9 / 5) = 8106479329266893 / 4503599627370496"
  by (simp add: fl_unit roundEven_eval_up [of 8106479329266893])

lemmas doubles = d015 d02 d06 d085 d115 d135 d16 d18

lemma fl_product_le:
  assumes "0 \<le> r" and "r < 1" and "0 \<le> c" and "c = of_int n * pow2 j" and "c < pow2 (j + 53)"
  shows "0 \<le> fl (r * c)" and "fl (r * c) \<le> c"
proof -
  have a: "0 \<le> r * c" using assms(1,3) by simp
  have "r * c \<le> 1 * c"
  proof (rule mult_right_mono)
    show "r \<le> 1" using assms(2) by simp
    show "0 \<le> c" by (rule assms(3))
  qed
  then have b: "r * c \<le> c" by simp
  show "0 \<le> fl (r * c)" by (rule fl_nonneg [OF a])
  show "fl (r * c) \<le> c" by (rule fl_le_double [OF a b assms(4,5)])
qed

lemma fl_sum_band:
  assumes "0 \<le> t" and "t \<le> c" and "a = of_int A / 2 ^ 52" and "1 \<le> a" and "a + c < 2"
  shows "a \<le> fl (a + t)"
    and "fl (a + t) \<le> of_int (roundEven ((a + c) * 2 ^ 52)) / 2 ^ 52"
proof -
  have r: "1 \<le> a + t" "a + t < 2" using assms by linarith+
  note f = fl_unit [OF r]
  have "of_int A \<le> (a + t) * 2 ^ 52" using assms(1,3) by (simp add: field_simps)
  then have "A \<le> roundEven ((a + t) * 2 ^ 52)" by (rule roundEven_ge)
  then have "of_int A / 2 ^ 52 \<le> (of_int (roundEven ((a + t) * 2 ^ 52)) :: real) / 2 ^ 52"
    by (simp add: divide_right_mono)
  then show "a \<le> fl (a + t)" using f assms(3) by linarith
  have "(a + t) * 2 ^ 52 \<le> (a + c) * 2 ^ 52" using assms(2) by simp
  then have "roundEven ((a + t) * 2 ^ 52) \<le> roundEven ((a + c) * 2 ^ 52)" by (rule roundEven_mono)
  then have "(of_int (roundEven ((a + t) * 2 ^ 52)) :: real) / 2 ^ 52
               \<le> of_int (roundEven ((a + c) * 2 ^ 52)) / 2 ^ 52"
    by (simp add: divide_right_mono)
  then show "fl (a + t) \<le> of_int (roundEven ((a + c) * 2 ^ 52)) / 2 ^ 52"
    using f by linarith
qed

lemma c015: "0 \<le> fl (3 / 20)" "fl (3 / 20) = of_int 5404319552844595 * pow2 (- 55)"
  "fl (3 / 20) < pow2 (- 55 + 53)"
  by (simp_all add: d015 pow2_def)

lemma c02: "0 \<le> fl (1 / 5)" "fl (1 / 5) = of_int 7205759403792794 * pow2 (- 55)"
  "fl (1 / 5) < pow2 (- 55 + 53)"
  by (simp_all add: d02 pow2_def)

lemma c025: "(0::real) \<le> 1 / 4" "(1 / 4 :: real) = of_int 1 * pow2 (- 2)" "(1 / 4 :: real) < pow2 (- 2 + 53)"
  by (simp_all add: pow2_def)

lemma band1:
  assumes "0 \<le> r" and "r < 1"
  shows "1 \<le> fl (1 + fl (r * fl (3 / 20)))" and "fl (1 + fl (r * fl (3 / 20))) \<le> fl (23 / 20)"
proof -
  note t = fl_product_le [OF assms c015]
  have a: "(1::real) = of_int 4503599627370496 / 2 ^ 52" by simp
  have b: "(1::real) \<le> 1" by simp
  have c: "1 + fl (3 / 20) < 2" by (simp add: d015)
  have u: "of_int (roundEven ((1 + fl (3 / 20)) * 2 ^ 52)) / 2 ^ 52 = fl (23 / 20)"
    by (simp add: d015 d115 roundEven_eval [of 5179139571476070])
  from fl_sum_band(1) [OF t a b c] show "1 \<le> fl (1 + fl (r * fl (3 / 20)))" .
  from fl_sum_band(2) [OF t a b c] show "fl (1 + fl (r * fl (3 / 20))) \<le> fl (23 / 20)"
    unfolding u .
qed

lemma band2:
  assumes "0 \<le> r" and "r < 1"
  shows "fl (23 / 20) \<le> fl (fl (23 / 20) + fl (r * fl (1 / 5)))"
    and "fl (fl (23 / 20) + fl (r * fl (1 / 5))) < fl (27 / 20)"
proof -
  note t = fl_product_le [OF assms c02]
  have a: "fl (23 / 20) = of_int 5179139571476070 / 2 ^ 52" by (simp add: d115)
  have b: "1 \<le> fl (23 / 20)" by (simp add: d115)
  have c: "fl (23 / 20) + fl (1 / 5) < 2" by (simp add: d115 d02)
  have u: "of_int (roundEven ((fl (23 / 20) + fl (1 / 5)) * 2 ^ 52)) / 2 ^ 52 < fl (27 / 20)"
    by (simp add: d115 d02 d135 roundEven_eval [of 6079859496950169])
  from fl_sum_band(1) [OF t a b c] show "fl (23 / 20) \<le> fl (fl (23 / 20) + fl (r * fl (1 / 5)))" .
  from fl_sum_band(2) [OF t a b c] u show "fl (fl (23 / 20) + fl (r * fl (1 / 5))) < fl (27 / 20)"
    by linarith
qed

lemma band3:
  assumes "0 \<le> r" and "r < 1"
  shows "fl (27 / 20) \<le> fl (fl (27 / 20) + fl (r * (1 / 4)))"
    and "fl (fl (27 / 20) + fl (r * (1 / 4))) \<le> fl (8 / 5)"
proof -
  note t = fl_product_le [OF assms c025]
  have a: "fl (27 / 20) = of_int 6079859496950170 / 2 ^ 52" by (simp add: d135)
  have b: "1 \<le> fl (27 / 20)" by (simp add: d135)
  have c: "fl (27 / 20) + 1 / 4 < 2" by (simp add: d135)
  have u: "of_int (roundEven ((fl (27 / 20) + 1 / 4) * 2 ^ 52)) / 2 ^ 52 = fl (8 / 5)"
    by (simp add: d135 d16 roundEven_eval [of 7205759403792794])
  from fl_sum_band(1) [OF t a b c] show "fl (27 / 20) \<le> fl (fl (27 / 20) + fl (r * (1 / 4)))" .
  from fl_sum_band(2) [OF t a b c] show "fl (fl (27 / 20) + fl (r * (1 / 4))) \<le> fl (8 / 5)"
    unfolding u .
qed

lemma band4:
  assumes "0 \<le> r" and "r < 1"
  shows "fl (8 / 5) \<le> fl (fl (8 / 5) + fl (r * fl (1 / 5)))"
    and "fl (fl (8 / 5) + fl (r * fl (1 / 5))) \<le> fl (9 / 5)"
proof -
  note t = fl_product_le [OF assms c02]
  have a: "fl (8 / 5) = of_int 7205759403792794 / 2 ^ 52" by (simp add: d16)
  have b: "1 \<le> fl (8 / 5)" by (simp add: d16)
  have c: "fl (8 / 5) + fl (1 / 5) < 2" by (simp add: d16 d02)
  have u: "of_int (roundEven ((fl (8 / 5) + fl (1 / 5)) * 2 ^ 52)) / 2 ^ 52 = fl (9 / 5)"
    by (simp add: d16 d02 d18 roundEven_eval [of 8106479329266893])
  from fl_sum_band(1) [OF t a b c] show "fl (8 / 5) \<le> fl (fl (8 / 5) + fl (r * fl (1 / 5)))" .
  from fl_sum_band(2) [OF t a b c] show "fl (fl (8 / 5) + fl (r * fl (1 / 5))) \<le> fl (9 / 5)"
    unfolding u .
qed

lemma double_order:
  "(1 / 4 :: real) < fl (3 / 5)" "fl (3 / 5) < fl (17 / 20)" "fl (17 / 20) < 1"
  "1 < fl (23 / 20)" "fl (23 / 20) < fl (27 / 20)" "fl (27 / 20) < fl (8 / 5)"
  "fl (8 / 5) < fl (9 / 5)"
  by (simp_all add: doubles)

lemma lossMultiplier_bands:
  assumes "0 \<le> r" and "r < 1"
  shows "random < 0.25 \<longrightarrow> 1 \<le> lossMultiplier random r \<and> lossMultiplier random r \<le> fl 1.15"
    and "0.25 \<le> random \<and> random < fl 0.6 \<longrightarrow>
           fl 1.15 \<le> lossMultiplier random r \<and> lossMultiplier random r < fl 1.35"
    and "fl 0.6 \<le> random \<and> random < fl 0.85 \<longrightarrow>
           fl 1.35 \<le> lossMultiplier random r \<and> lossMultiplier random r \<le> fl 1.6"
    and "fl 0.85 \<le> random \<longrightarrow>
           fl 1.6 \<le> lossMultiplier random r \<and> lossMultiplier random r \<le> fl 1.8"
    and "1 \<le> lossMultiplier random r"
    and "lossMultiplier random r \<le> fl 1.8"
proof -
  note b1 = band1 [OF assms] and b2 = band2 [OF assms] and b3 = band3 [OF assms]
    and b4 = band4 [OF assms]
  note o = double_order
  show "random < 0.25 \<longrightarrow> 1 \<le> lossMultiplier random r \<and> lossMultiplier random r \<le> fl 1.15"
    using b1 by (simp add: lossMultiplier_def)
  show "0.25 \<le> random \<and> random < fl 0.6 \<longrightarrow>
           fl 1.15 \<le> lossMultiplier random r \<and> lossMultiplier random r < fl 1.35"
    using b2 by (simp add: lossMultiplier_def)
  show "fl 0.6 \<le> random \<and> random < fl 0.85 \<longrightarrow>
           fl 1.35 \<le> lossMultiplier random r \<and> lossMultiplier random r \<le> fl 1.6"
    using b3 o(1) by (auto simp: lossMultiplier_def)
  show "fl 0.85 \<le> random \<longrightarrow>
           fl 1.6 \<le> lossMultiplier random r \<and> lossMultiplier random r \<le> fl 1.8"
    using b4 o(1,2) by (auto simp: lossMultiplier_def)
  show "1 \<le> lossMultiplier random r"
    using b1(1) b2(1) b3(1) b4(1) o(4,5,6) unfolding lossMultiplier_def by (simp; linarith)
  show "lossMultiplier random r \<le> fl 1.8"
    using b1(2) b2(2) b3(2) b4(2) o(5,6,7) unfolding lossMultiplier_def by (simp; linarith)
qed

lemma lossMultiplier_mid: "lossMultiplier (1 / 2) (1 / 2) = 5 / 4"
  by (simp add: lossMultiplier_def doubles fl_unit fl_eval [where e = "- 4"] pow2_def
        roundEven_eval [of 7205759403792794] roundEven_eval_up [of 5629499534213120])

lemma lossMultiplier_top:
  "lossMultiplier (fl (17 / 20)) (4503599627370495 / 4503599627370496) = fl (9 / 5)"
  by (simp add: lossMultiplier_def doubles fl_unit fl_eval [where e = "- 3"] pow2_def
        roundEven_eval [of 7205759403792792] roundEven_eval [of 8106479329266893])

lemma lossMultiplier_top_first:
  "lossMultiplier 0 (4503599627370495 / 4503599627370496) = fl (23 / 20)"
  by (simp add: lossMultiplier_def doubles fl_unit fl_eval [where e = "- 3"] pow2_def
        roundEven_eval_up [of 5404319552844594] roundEven_eval [of 5179139571476070])

lemma lossMultiplier_top_third:
  "lossMultiplier (fl (3 / 5)) (4503599627370495 / 4503599627370496) = fl (8 / 5)"
  by (simp add: lossMultiplier_def doubles fl_unit fl_eval [where e = "- 3"] pow2_def
        roundEven_eval [of 9007199254740990] roundEven_eval_up [of 7205759403792794])

subsection \<open>Solo play: the loss multiplier\<close>

lemma actualLossOf_loss:
  assumes "0 < bet" "bet \<le> ub" "0 \<le> lossMultiplier (shd rnd) (shd (stl rnd))"
  shows "actualLossOf bet ub 0 rnd = (min (bet * lossMultiplier (shd rnd) (shd (stl rnd))) ub, stl (stl rnd))"
proof -
  have "0 \<le> bet * lossMultiplier (shd rnd) (shd (stl rnd))"
    using assms by simp
  then show ?thesis
    using assms by (auto simp: actualLossOf_def Let_def min_def max_def)
qed

lemma lossDraws_play:
  "fst (playGame (Truthy (Num 10)) ''A'' soloStore lossDraws) = Inr lossResponse"
  by (simp add: playGame_def MAX_BET_def db_defs soloStore_def playerA_def lossDraws_def
        noCombo_reels actualLossOf_def lossMultiplier_mid Let_def lossResponse_def)

lemma unitDraws_lossDraws: "unitDraws lossDraws"
  by (simp add: unitDraws_def lossDraws_def noComboDraws_def)

lemma unitDraws_edgeDraws: "unitDraws edgeDraws"
  by (simp add: unitDraws_def edgeDraws_def noComboDraws_def d085)

text \<open>
  C6 (as the code has it). In a solo play that wins nothing, the loss multiplier is
  computed in doubles from the two draws that follow the reel computation. The first
  draw selects one of four bands by the thresholds 0.25, 0.6 and 0.85 (selection
  intervals of 25, 35, 25 and 15 percent, up to the rounding of the thresholds). With
  every limit read as the double of its literal, the multiplier lies in \<open>[1, 1.15]\<close>,
  in \<open>[1.15, 1.35)\<close>, in \<open>[1.35, 1.6]\<close> and in \<open>[1.6, 1.8]\<close>: the upper limits 1.15,
  1.6 and 1.8 are closed, so the multiplier lies in \<open>[1, 1.8]\<close>. The debit is the stake
  times the multiplier, capped by the balance before the play, and the stored balance
  is the old one minus the debit.
\<close>

theorem solo_loss_multiplier_and_debit:
  assumes "unitDraws rnd"
    and "fst (playGame body uid db rnd) = Inr resp"
    and "prWinAmount resp = 0"
  shows "\<exists>bet usr. body = Truthy (Num bet) \<and> users db uid = Some usr \<and>
     (let rnd1 = snd (generateReelResult bet rnd);
          random = shd rnd1;
          m = lossMultiplier random (shd (stl rnd1))
      in (random < 0.25 \<longrightarrow> 1 \<le> m \<and> m \<le> fl 1.15)
       \<and> (0.25 \<le> random \<and> random < fl 0.6 \<longrightarrow> fl 1.15 \<le> m \<and> m < fl 1.35)
       \<and> (fl 0.6 \<le> random \<and> random < fl 0.85 \<longrightarrow> fl 1.35 \<le> m \<and> m \<le> fl 1.6)
       \<and> (fl 0.85 \<le> random \<longrightarrow> fl 1.6 \<le> m \<and> m \<le> fl 1.8)
       \<and> 1 \<le> m \<and> m \<le> fl 1.8
       \<and> prActualLoss resp = min (bet * m) (balance usr)
       \<and> prActualLoss resp \<le> balance usr
       \<and> prNewBalance resp = balance usr - prActualLoss resp
       \<and> map_option balance (users (fst (snd (playGame body uid db rnd))) uid)
            = Some (balance usr - prActualLoss resp))"
proof -
  obtain db' rnd' where pg: "playGame body uid db rnd = (Inr resp, db', rnd')"
    using assms(2) by (cases "playGame body uid db rnd") auto
  from playGame_Inr_facts [OF pg] obtain bet usr where
    body: "body = Truthy (Num bet)" and bet: "1 \<le> bet" and usr: "users db uid = Some usr"
    and bal: "bet \<le> balance usr"
    and loss: "prActualLoss resp =
                 fst (actualLossOf bet (balance usr) (prWinAmount resp) (snd (generateReelResult bet rnd)))"
    and new: "prNewBalance resp = max 0 (balance usr - prActualLoss resp) + prWinAmount resp"
    and stored: "map_option balance (users db' uid) = Some (prNewBalance resp)"
    by blast
  define rnd1 where "rnd1 = snd (generateReelResult bet rnd)"
  define m where "m = lossMultiplier (shd rnd1) (shd (stl rnd1))"
  have u1: "unitDraws rnd1"
    unfolding rnd1_def by (rule generateReelResult_unitDraws [OF assms(1)])
  have d2: "0 \<le> shd (stl rnd1) \<and> shd (stl rnd1) < 1"
    by (rule unitDraws_shd [OF unitDraws_stl [OF u1]])
  have r1: "0 \<le> shd (stl rnd1)" "shd (stl rnd1) < 1"
    using d2 by simp_all
  note b = lossMultiplier_bands [OF r1, of "shd rnd1", folded m_def]
  have m0: "0 \<le> lossMultiplier (shd rnd1) (shd (stl rnd1))"
    using b(5) unfolding m_def by linarith
  have al: "prActualLoss resp = min (bet * m) (balance usr)"
    using loss actualLossOf_loss [of bet "balance usr" rnd1, OF _ bal m0] bet assms(3)
    by (simp add: rnd1_def m_def)
  have le: "prActualLoss resp \<le> balance usr" using al by simp
  have nb: "prNewBalance resp = balance usr - prActualLoss resp"
    using new le assms(3) by simp
  have st: "map_option balance (users (fst (snd (playGame body uid db rnd))) uid)
              = Some (balance usr - prActualLoss resp)"
    using stored nb pg by simp
  have "let rnd1 = snd (generateReelResult bet rnd);
          random = shd rnd1;
          m = lossMultiplier random (shd (stl rnd1))
      in (random < 0.25 \<longrightarrow> 1 \<le> m \<and> m \<le> fl 1.15)
       \<and> (0.25 \<le> random \<and> random < fl 0.6 \<longrightarrow> fl 1.15 \<le> m \<and> m < fl 1.35)
       \<and> (fl 0.6 \<le> random \<and> random < fl 0.85 \<longrightarrow> fl 1.35 \<le> m \<and> m \<le> fl 1.6)
       \<and> (fl 0.85 \<le> random \<longrightarrow> fl 1.6 \<le> m \<and> m \<le> fl 1.8)
       \<and> 1 \<le> m \<and> m \<le> fl 1.8
       \<and> prActualLoss resp = min (bet * m) (balance usr)
       \<and> prActualLoss resp \<le> balance usr
       \<and> prNewBalance resp = balance usr - prActualLoss resp
       \<and> map_option balance (users (fst (snd (playGame body uid db rnd))) uid)
            = Some (balance usr - prActualLoss resp)"
    unfolding Let_def rnd1_def [symmetric] m_def [symmetric]
    by (intro conjI) (fact b al le nb st)+
  with body usr show ?thesis by blast
qed

theorem solo_loss_multiplier_and_debit_witness:
  "unitDraws lossDraws
   \<and> fst (playGame (Truthy (Num 10)) ''A'' soloStore lossDraws) = Inr lossResponse
   \<and> prWinAmount lossResponse = 0
   \<and> prActualLoss lossResponse = 12.5
   \<and> prActualLoss lossResponse \<le> 100
   \<and> map_option balance (users (fst (snd (playGame (Truthy (Num 10)) ''A'' soloStore lossDraws))) ''A'')
        = Some 87.5"
proof -
  have w: "prWinAmount lossResponse = 0" by (simp add: lossResponse_def)
  have u: "users soloStore ''A'' = Some playerA" by (simp add: soloStore_def)
  show ?thesis
    using solo_loss_multiplier_and_debit [OF unitDraws_lossDraws lossDraws_play w]
          unitDraws_lossDraws lossDraws_play u
    by (simp add: lossResponse_def playerA_def Let_def)
qed

text \<open>The claim as stated fails at the upper limit. After a reel grid that wins
  nothing, the draws 0.85 and \<^verbatim>\<open>1 - 2^-52\<close> select the last band and give
  \<open>1.6 + r * 0.20\<close> the value of the double 1.8: the play of a stake of 10 reports
  the multiplier 1.8, which is not below 1.8. With the same second draw the first band
  gives the double 1.15 and the third band the double 1.6, which is not below 1.6.\<close>

theorem multiplier_reaches_upper_limit:
  "unitDraws edgeDraws
   \<and> (\<exists>resp. fst (playGame (Truthy (Num 10)) ''A'' soloStore edgeDraws) = Inr resp
         \<and> prWinAmount resp = 0 \<and> prLossMultiplier resp = Some (fl 1.8))
   \<and> lossMultiplier (fl 0.85) (1 - 1 / 2 ^ 52) = fl 1.8
   \<and> \<not> fl 1.8 < 1.8
   \<and> lossMultiplier 0 (1 - 1 / 2 ^ 52) = fl 1.15
   \<and> lossMultiplier (fl 0.6) (1 - 1 / 2 ^ 52) = fl 1.6
   \<and> \<not> fl 1.6 < 1.6"
proof -
  have first: "lossMultiplier 0 (1 - 1 / 2 ^ 52) = fl 1.15"
    using lossMultiplier_top_first by simp
  have third: "lossMultiplier (fl 0.6) (1 - 1 / 2 ^ 52) = fl 1.6"
    using lossMultiplier_top_third by simp
  have n16: "\<not> fl 1.6 < 1.6" by (simp add: d16)
  have top: "lossMultiplier (fl 0.85) (1 - 1 / 2 ^ 52) = fl 1.8"
    using lossMultiplier_top by simp
  have play: "\<exists>resp. fst (playGame (Truthy (Num 10)) ''A'' soloStore edgeDraws) = Inr resp
         \<and> prWinAmount resp = 0 \<and> prLossMultiplier resp = Some (fl 1.8)"
    by (simp add: playGame_def MAX_BET_def db_defs soloStore_def playerA_def edgeDraws_def
          noCombo_reels actualLossOf_def lossMultiplier_top d18 Let_def)
  have "\<not> fl 1.8 < 1.8" by (simp add: d18)
  with unitDraws_edgeDraws play top first third n16 show ?thesis by blast
qed

subsection \<open>Solo play: scatter pays\<close>

text \<open>
  C5 (as the code has it). The scatter section pays a flat multiple of the stake for
  four scatter symbols (1.0), five (1.5) and six or more (2.5), whatever the random
  draws are. Only a grid with exactly three scatter symbols pays by chance: it pays
  0.6 of the stake exactly when the draw is below 0.2, so there are draws under which
  it pays and draws under which it does not. Fewer than three pay nothing.
\<close>

theorem scatter_pay_by_count:
  "(scatterCount rls = 5 \<longrightarrow> fst (scatterWin bet rls (w, ps, rnd)) = w + bet * 1.5)
   \<and> (scatterCount rls \<ge> 6 \<longrightarrow> fst (scatterWin bet rls (w, ps, rnd)) = w + bet * 2.5)
   \<and> (scatterCount rls = 4 \<longrightarrow> fst (scatterWin bet rls (w, ps, rnd)) = w + bet * 1.0)
   \<and> (scatterCount rls = 3 \<longrightarrow>
         fst (scatterWin bet rls (w, ps, rnd)) = (if shd rnd < 0.2 then w + bet * 0.6 else w)
         \<and> (\<exists>rnd'. fst (scatterWin bet rls (w, ps, rnd')) = w + bet * 0.6)
         \<and> (\<exists>rnd'. fst (scatterWin bet rls (w, ps, rnd')) = w))
   \<and> (scatterCount rls < 3 \<longrightarrow> fst (scatterWin bet rls (w, ps, rnd)) = w)"
proof -
  have pay: "scatterCount rls = 3 \<Longrightarrow> fst (scatterWin bet rls (w, ps, sconst 0)) = w + bet * 0.6"
    by (simp add: scatterWin_def)
  have nopay: "scatterCount rls = 3 \<Longrightarrow> fst (scatterWin bet rls (w, ps, sconst (1/2))) = w"
    by (simp add: scatterWin_def)
  have ex1: "scatterCount rls = 3 \<Longrightarrow> \<exists>rnd'. fst (scatterWin bet rls (w, ps, rnd')) = w + bet * 0.6"
    using pay by blast
  have ex2: "scatterCount rls = 3 \<Longrightarrow> \<exists>rnd'. fst (scatterWin bet rls (w, ps, rnd')) = w"
    using nopay by blast
  have det: "scatterCount rls = 3 \<Longrightarrow>
      fst (scatterWin bet rls (w, ps, rnd)) = (if shd rnd < 0.2 then w + bet * 0.6 else w)"
    by (simp add: scatterWin_def)
  show ?thesis
    using ex1 ex2 det by (simp add: scatterWin_def Let_def)
qed

theorem scatter_pay_by_count_witness:
  "scatterCount fourScatterGrid = 4
   \<and> fst (scatterWin 10 fourScatterGrid (0, [], sconst (9/10))) = 10
   \<and> scatterCount threeScatterGrid = 3
   \<and> fst (scatterWin 10 threeScatterGrid (0, [], sconst (1/10))) = 6
   \<and> fst (scatterWin 10 threeScatterGrid (0, [], sconst (9/10))) = 0"
  using scatter_pay_by_count [of fourScatterGrid 10 0 "[]" "sconst (9/10)"]
        scatter_pay_by_count [of threeScatterGrid 10 0 "[]" "sconst (1/10)"]
        scatter_pay_by_count [of threeScatterGrid 10 0 "[]" "sconst (9/10)"]
  by (simp add: four_scatter_count three_scatter_count)

text \<open>The claim as stated fails for four scatter symbols: on the grid
  \<open>fourScatterGrid\<close> no random draw makes the play pay nothing.\<close>

theorem four_scatters_always_pay:
  "\<not> (\<exists>rnd. rrWinAmount (fst (reelWin 10 fourScatterGrid rnd)) = 0)"
  by (simp add: reelWin_def four_scatter_counts scatterWin_def four_scatter_count)

subsection \<open>Lobby settlement\<close>

lemma settleBets_snoc:
  assumes "settleBets rid slotOutcome pre db = Done db1"
  shows "settleBets rid slotOutcome (pre @ [b]) db = settleBet rid slotOutcome b db1"
  using assms
proof (induction pre arbitrary: db)
  case Nil
  then show ?case by (simp split: settled.splits)
next
  case (Cons a pre)
  then show ?case by (simp split: settled.splits)
qed

lemma settleBets_thrown:
  assumes "settleBets rid slotOutcome pre db = Thrown dbx"
  shows "settleBets rid slotOutcome (pre @ post) db = Thrown dbx"
  using assms
proof (induction pre arbitrary: db)
  case Nil
  then show ?case by simp
next
  case (Cons a pre)
  then show ?case by (simp split: settled.splits)
qed

lemma processPayouts_reached:
  assumes "settleBets rid slotOutcome pre db = Done db1"
    and "settleBet rid slotOutcome b db1 = Done db2"
  shows "processPayouts rid slotOutcome (pre @ [b]) db = db2"
  by (simp add: processPayouts_def settleBets_snoc [OF assms(1)] assms(2))

lemma processPayouts_aborted:
  assumes "settleBets rid slotOutcome pre db = Done db1"
    and "settleBet rid slotOutcome b db1 = Thrown dbx"
  shows "processPayouts rid slotOutcome (pre @ b # post) db = dbx"
proof -
  have "settleBets rid slotOutcome (pre @ [b]) db = Thrown dbx"
    by (simp add: settleBets_snoc [OF assms(1)] assms(2))
  from settleBets_thrown [OF this, of post] show ?thesis
    by (simp add: processPayouts_def)
qed

lemma settleBet_done:
  assumes "userId b = Some u" and "u \<noteq> ''anonymous''" and "users db u = Some usr"
    and "settleBet rid slotOutcome b db = Done db2"
  shows "users db2 =
           (if side b = slotOutcome
            then (users db)(u \<mapsto> usr\<lparr>balance := balance usr + orZero (betAmount b) * 2\<rparr>)
            else users db)"
    and "transactions db2 = transactions db @
           [\<lparr> txUser = u,
              txType = (if side b = slotOutcome then game_win else game_loss),
              txAmount = (if side b = slotOutcome then orZero (betAmount b) * 2
                          else orZero (betAmount b)),
              txStatus = ''completed'',
              txDescription = (if side b = slotOutcome
                               then ''Sweet Bonanza Lobby Win ('' @ sideName (side b) @ '')''
                               else ''Sweet Bonanza Lobby Loss ('' @ sideName (side b) @ '')''),
              txMetadata = LobbyMeta rid (orZero (betAmount b)) (side b) \<rparr>]"
    and "balanceHistories db2 = balanceHistories db"
  using assms
  by (auto simp: settleBet_def db_defs Let_def split: option.splits sum.splits if_splits)

lemma settleBet_thrown:
  assumes "settleBet rid slotOutcome b db = Thrown dbx"
  shows "transactions dbx = transactions db" and "balanceHistories dbx = balanceHistories db"
  using assms
  by (auto simp: settleBet_def db_defs Let_def split: option.splits sum.splits if_splits)

lemma settleBet_accepting:
  assumes "rejects db = (\<lambda>call. None)"
  shows "\<exists>db2. settleBet rid slotOutcome b db = Done db2 \<and> rejects db2 = (\<lambda>call. None)"
  using assms
  by (auto simp: settleBet_def db_defs Let_def split: option.splits)

lemma settleBets_accepting:
  assumes "rejects db = (\<lambda>call. None)"
  shows "\<exists>db1. settleBets rid slotOutcome bs db = Done db1 \<and> rejects db1 = (\<lambda>call. None)"
  using assms
proof (induction bs arbitrary: db)
  case Nil
  then show ?case by simp
next
  case (Cons b bs)
  from settleBet_accepting [OF Cons.prems, of rid slotOutcome b] obtain db2 where
    s: "settleBet rid slotOutcome b db = Done db2" and r: "rejects db2 = (\<lambda>call. None)" by blast
  from Cons.IH [OF r] show ?case by (simp add: s)
qed

lemma demo_settled:
  "settleBets 1700000000000 Loss [betA, betB] demoStore =
     Done (demoStore\<lparr> users := [''A'' \<mapsto> playerA, ''B'' \<mapsto> playerB\<lparr>balance := 130\<rparr>],
                      transactions :=
                        [\<lparr> txUser = ''A'', txType = game_loss, txAmount = 20,
                            txStatus = ''completed'',
                            txDescription = ''Sweet Bonanza Lobby Loss (win)'',
                            txMetadata = LobbyMeta 1700000000000 20 Win \<rparr>,
                         \<lparr> txUser = ''B'', txType = game_win, txAmount = 100,
                            txStatus = ''completed'',
                            txDescription = ''Sweet Bonanza Lobby Win (loss)'',
                            txMetadata = LobbyMeta 1700000000000 50 Loss \<rparr>] \<rparr>)"
  by (simp add: settleBet_def db_defs demoStore_def betA_def betB_def playerA_def playerB_def
        Let_def fun_upd_twist)

lemma demo_first_settled:
  "settleBets 1700000000000 Loss [betA] demoStore =
     Done (demoStore\<lparr> transactions :=
                        [\<lparr> txUser = ''A'', txType = game_loss, txAmount = 20,
                            txStatus = ''completed'',
                            txDescription = ''Sweet Bonanza Lobby Loss (win)'',
                            txMetadata = LobbyMeta 1700000000000 20 Win \<rparr>] \<rparr>)"
  by (simp add: settleBet_def db_defs demoStore_def betA_def playerA_def Let_def)

lemma demo_payouts_users:
  "users (processPayouts 1700000000000 Loss [betA, betB] demoStore) =
     [''A'' \<mapsto> playerA, ''B'' \<mapsto> playerB\<lparr>balance := 130\<rparr>]"
  unfolding processPayouts_def demo_settled by simp

lemma demo_payouts_ledger:
  "length (transactions (processPayouts 1700000000000 Loss [betA, betB] demoStore)) = 2"
  "balanceHistories (processPayouts 1700000000000 Loss [betA, betB] demoStore) = []"
  unfolding processPayouts_def demo_settled by (simp_all add: demoStore_def)

lemma guest_thrown:
  "settleBet 1700000000000 Loss betGuest castingStore = Thrown castingStore"
  by (simp add: settleBet_def db_defs castingStore_def betGuest_def)

text \<open>
  C1 (as the code has it). When the payout loop reaches the bet of a known,
  non-anonymous user (no earlier bet of the round raised a database error) and settles
  it, a bet on the decided side adds exactly twice the stake to that user's balance and
  records a \<^verbatim>\<open>game_win\<close> transaction of twice the stake; a bet on the other side
  leaves the balance as it is and records a \<^verbatim>\<open>game_loss\<close> transaction of the
  stake: the losing branch debits nothing and clamps nothing. No other user's balance
  changes, and the store reached is the one \<^verbatim>\<open>processPayouts\<close> returns when the
  bet is the last one. On a database that rejects no call every bet of the round is
  reached and settled. A database call that raises while a bet is settled ends the
  loop: whatever bets follow, the store stays the one reached at the exception.
\<close>

theorem lobby_settlement_balance:
  "(settleBets rid slotOutcome pre db = Done db1
      \<and> userId b = Some u \<and> u \<noteq> ''anonymous'' \<and> users db1 u = Some usr
      \<and> settleBet rid slotOutcome b db1 = Done db2 \<longrightarrow>
      processPayouts rid slotOutcome (pre @ [b]) db = db2
      \<and> map_option balance (users db2 u) =
          Some (if side b = slotOutcome then balance usr + orZero (betAmount b) * 2
                else balance usr)
      \<and> (\<forall>v. v \<noteq> u \<longrightarrow> users db2 v = users db1 v)
      \<and> (\<exists>tx. transactions db2 = transactions db1 @ [tx]
             \<and> txUser tx = u
             \<and> txType tx = (if side b = slotOutcome then game_win else game_loss)
             \<and> txAmount tx = (if side b = slotOutcome then orZero (betAmount b) * 2
                               else orZero (betAmount b))
             \<and> txMetadata tx = LobbyMeta rid (orZero (betAmount b)) (side b)))
   \<and> (rejects db = (\<lambda>call. None) \<longrightarrow>
        (\<exists>db1 db2. settleBets rid slotOutcome pre db = Done db1
                  \<and> settleBet rid slotOutcome b db1 = Done db2))
   \<and> (settleBets rid slotOutcome pre db = Done db1
        \<and> settleBet rid slotOutcome b db1 = Thrown dbx \<longrightarrow>
        users (processPayouts rid slotOutcome (pre @ b # post) db) = users dbx)"
proof (intro conjI impI)
  assume a: "settleBets rid slotOutcome pre db = Done db1
      \<and> userId b = Some u \<and> u \<noteq> ''anonymous'' \<and> users db1 u = Some usr
      \<and> settleBet rid slotOutcome b db1 = Done db2"
  then have pre: "settleBets rid slotOutcome pre db = Done db1"
    and b: "userId b = Some u" and n: "u \<noteq> ''anonymous''" and u: "users db1 u = Some usr"
    and s: "settleBet rid slotOutcome b db1 = Done db2" by simp_all
  note d = settleBet_done [OF b n u s]
  show "processPayouts rid slotOutcome (pre @ [b]) db = db2"
    by (rule processPayouts_reached [OF pre s])
  show "map_option balance (users db2 u) =
             Some (if side b = slotOutcome then balance usr + orZero (betAmount b) * 2
                   else balance usr)"
    unfolding d(1) using u by simp
  show "\<forall>v. v \<noteq> u \<longrightarrow> users db2 v = users db1 v"
    unfolding d(1) by simp
  show "\<exists>tx. transactions db2 = transactions db1 @ [tx]
                \<and> txUser tx = u
                \<and> txType tx = (if side b = slotOutcome then game_win else game_loss)
                \<and> txAmount tx = (if side b = slotOutcome then orZero (betAmount b) * 2
                                  else orZero (betAmount b))
                \<and> txMetadata tx = LobbyMeta rid (orZero (betAmount b)) (side b)"
    unfolding d(2) by simp
next
  assume h: "rejects db = (\<lambda>call. None)"
  from settleBets_accepting [OF h, of rid slotOutcome pre] obtain db1 where
    p: "settleBets rid slotOutcome pre db = Done db1" and r: "rejects db1 = (\<lambda>call. None)"
    by blast
  from settleBet_accepting [OF r, of rid slotOutcome b] p
  show "\<exists>db1 db2. settleBets rid slotOutcome pre db = Done db1
                  \<and> settleBet rid slotOutcome b db1 = Done db2"
    by blast
next
  assume "settleBets rid slotOutcome pre db = Done db1
        \<and> settleBet rid slotOutcome b db1 = Thrown dbx"
  then have "processPayouts rid slotOutcome (pre @ b # post) db = dbx"
    using processPayouts_aborted [of rid slotOutcome pre db db1 b dbx post] by simp
  then show "users (processPayouts rid slotOutcome (pre @ b # post) db) = users dbx"
    by simp
qed

theorem lobby_settlement_balance_witness:
  "map_option balance (users (processPayouts 1700000000000 Loss ([betA] @ [betB]) demoStore) ''B'')
     = Some 130
   \<and> map_option balance (users (processPayouts 1700000000000 Loss ([] @ [betA]) demoStore) ''A'')
     = Some 100
   \<and> (\<exists>tx. transactions (processPayouts 1700000000000 Loss ([] @ [betA]) demoStore) = [tx]
          \<and> txType tx = game_loss \<and> txAmount tx = 20)
   \<and> map_option balance
        (users (processPayouts 1700000000000 Loss ([] @ betGuest # [betB]) castingStore) ''B'')
     = Some 30"
proof -
  have h: "rejects demoStore = (\<lambda>call. None)" by (simp add: demoStore_def)
  have hG: "settleBets 1700000000000 Loss [] castingStore = Done castingStore
            \<and> settleBet 1700000000000 Loss betGuest castingStore = Thrown castingStore"
    by (simp add: guest_thrown)
  from lobby_settlement_balance
         [where rid = 1700000000000 and slotOutcome = Loss and pre = "[]" and db = castingStore
            and ?db1.0 = castingStore and b = betGuest and dbx = castingStore and post = "[betB]",
          THEN conjunct2, THEN conjunct2, rule_format, OF hG]
  have aborted: "map_option balance
        (users (processPayouts 1700000000000 Loss ([] @ betGuest # [betB]) castingStore) ''B'')
     = Some 30"
    by (simp add: castingStore_def demoStore_def playerB_def)
  from lobby_settlement_balance
         [where rid = 1700000000000 and slotOutcome = Loss and pre = "[]" and db = demoStore
            and b = betA, THEN conjunct2, THEN conjunct1, rule_format, OF h]
  obtain dbA where sA: "settleBet 1700000000000 Loss betA demoStore = Done dbA"
    by auto
  have hA: "settleBets 1700000000000 Loss [] demoStore = Done demoStore
      \<and> userId betA = Some ''A'' \<and> ''A'' \<noteq> ''anonymous'' \<and> users demoStore ''A'' = Some playerA
      \<and> settleBet 1700000000000 Loss betA demoStore = Done dbA"
    using sA by (simp add: betA_def demoStore_def)
  note first = lobby_settlement_balance
         [where rid = 1700000000000 and slotOutcome = Loss and pre = "[]" and db = demoStore
            and ?db1.0 = demoStore and b = betA and u = "''A''" and usr = playerA
            and ?db2.0 = dbA, THEN conjunct1, rule_format, OF hA]
  have s1: "settleBets 1700000000000 Loss [betA] demoStore = Done dbA"
    using sA by simp
  have u1: "users dbA ''B'' = Some playerB"
    using first by (simp add: demoStore_def)
  from lobby_settlement_balance
         [where rid = 1700000000000 and slotOutcome = Loss and pre = "[betA]" and db = demoStore
            and b = betB, THEN conjunct2, THEN conjunct1, rule_format, OF h]
  obtain dbB where sB: "settleBet 1700000000000 Loss betB dbA = Done dbB"
    using s1 by auto
  have hB: "settleBets 1700000000000 Loss [betA] demoStore = Done dbA
      \<and> userId betB = Some ''B'' \<and> ''B'' \<noteq> ''anonymous'' \<and> users dbA ''B'' = Some playerB
      \<and> settleBet 1700000000000 Loss betB dbA = Done dbB"
    using s1 sB u1 by (simp add: betB_def)
  note second = lobby_settlement_balance
         [where rid = 1700000000000 and slotOutcome = Loss and pre = "[betA]" and db = demoStore
            and ?db1.0 = dbA and b = betB and u = "''B''" and usr = playerB
            and ?db2.0 = dbB, THEN conjunct1, rule_format, OF hB]
  have t0: "transactions demoStore = []" by (simp add: demoStore_def)
  show ?thesis
    using first second t0 aborted
    by (auto simp: betA_def betB_def playerA_def playerB_def)
qed

text \<open>The claim as stated fails on the losing side: \<open>A\<close> holds 100 and loses a stake
  of 20, and the balance after settlement is 100, not 80.\<close>

theorem losing_stake_not_debited:
  "map_option balance (users (processPayouts 1700000000000 Loss [betA, betB] demoStore) ''A'')
     = Some 100
   \<and> map_option balance (users (processPayouts 1700000000000 Loss [betA, betB] demoStore) ''A'')
     \<noteq> Some (max 0 (balance playerA - orZero (betAmount betA)))"
  unfolding demo_payouts_users by (simp add: playerA_def betA_def)

text \<open>
  C2 (as the code has it). Settling the bet of a known, non-anonymous user in the lobby
  appends exactly one transaction and no balance-history record, when the payout loop
  reaches the bet and no database call raises for it. A bet at which a database call
  raises gets no record, and neither does any bet after it: the exception ends the
  loop. A solo play that succeeds appends exactly one transaction and exactly one
  balance-history record, both of the player, the history referring to the
  transaction; a rejected solo request leaves the store as it was.
\<close>

theorem ledger_records_per_settlement:
  "(settleBets rid slotOutcome pre db = Done db1
      \<and> userId b = Some u \<and> u \<noteq> ''anonymous'' \<and> users db1 u \<noteq> None
      \<and> settleBet rid slotOutcome b db1 = Done db2 \<longrightarrow>
      processPayouts rid slotOutcome (pre @ [b]) db = db2
      \<and> (\<exists>tx. transactions db2 = transactions db1 @ [tx]
            \<and> txUser tx = u
            \<and> txType tx = (if side b = slotOutcome then game_win else game_loss))
      \<and> balanceHistories db2 = balanceHistories db1)
   \<and> (settleBets rid slotOutcome pre db = Done db1
      \<and> settleBet rid slotOutcome b db1 = Thrown dbx \<longrightarrow>
      processPayouts rid slotOutcome (pre @ b # post) db = dbx
      \<and> transactions dbx = transactions db1
      \<and> balanceHistories dbx = balanceHistories db1)
   \<and> (fst (playGame body uid db rnd) = Inr resp \<longrightarrow>
        (\<exists>tx h. transactions (fst (snd (playGame body uid db rnd))) = transactions db @ [tx]
              \<and> balanceHistories (fst (snd (playGame body uid db rnd))) = balanceHistories db @ [h]
              \<and> txUser tx = uid \<and> bhUser h = uid
              \<and> bhReferenceId h = length (transactions db)))
   \<and> (fst (playGame body uid db rnd) = Inl e \<longrightarrow> fst (snd (playGame body uid db rnd)) = db)"
proof (intro conjI impI)
  assume a: "settleBets rid slotOutcome pre db = Done db1
      \<and> userId b = Some u \<and> u \<noteq> ''anonymous'' \<and> users db1 u \<noteq> None
      \<and> settleBet rid slotOutcome b db1 = Done db2"
  then obtain usr where u: "users db1 u = Some usr" by blast
  from a have pre: "settleBets rid slotOutcome pre db = Done db1"
    and b: "userId b = Some u" and n: "u \<noteq> ''anonymous''"
    and s: "settleBet rid slotOutcome b db1 = Done db2" by simp_all
  note d = settleBet_done [OF b n u s]
  show "processPayouts rid slotOutcome (pre @ [b]) db = db2"
    by (rule processPayouts_reached [OF pre s])
  show "\<exists>tx. transactions db2 = transactions db1 @ [tx]
            \<and> txUser tx = u
            \<and> txType tx = (if side b = slotOutcome then game_win else game_loss)"
    unfolding d(2) by simp
  show "balanceHistories db2 = balanceHistories db1" by (rule d(3))
next
  assume a: "settleBets rid slotOutcome pre db = Done db1
      \<and> settleBet rid slotOutcome b db1 = Thrown dbx"
  then have pre: "settleBets rid slotOutcome pre db = Done db1"
    and t: "settleBet rid slotOutcome b db1 = Thrown dbx" by simp_all
  show "processPayouts rid slotOutcome (pre @ b # post) db = dbx"
    by (rule processPayouts_aborted [OF pre t])
  show "transactions dbx = transactions db1" by (rule settleBet_thrown(1) [OF t])
  show "balanceHistories dbx = balanceHistories db1" by (rule settleBet_thrown(2) [OF t])
next
  assume "fst (playGame body uid db rnd) = Inr resp"
  then show "\<exists>tx h. transactions (fst (snd (playGame body uid db rnd))) = transactions db @ [tx]
              \<and> balanceHistories (fst (snd (playGame body uid db rnd))) = balanceHistories db @ [h]
              \<and> txUser tx = uid \<and> bhUser h = uid
              \<and> bhReferenceId h = length (transactions db)"
    by (rule playGame_Inr_records)
next
  assume "fst (playGame body uid db rnd) = Inl e"
  then show "fst (snd (playGame body uid db rnd)) = db"
    by (rule playGame_Inl_unchanged)
qed

theorem ledger_records_per_settlement_witness:
  "length (transactions (processPayouts 1700000000000 Loss ([betA] @ [betB]) demoStore)) = 2
   \<and> balanceHistories (processPayouts 1700000000000 Loss ([betA] @ [betB]) demoStore) = []
   \<and> processPayouts 1700000000000 Loss ([] @ betGuest # [betB]) castingStore = castingStore
   \<and> length (transactions (fst (snd (playGame (Truthy (Num 10)) ''A'' soloStore lossDraws)))) = 1
   \<and> length (balanceHistories (fst (snd (playGame (Truthy (Num 10)) ''A'' soloStore lossDraws)))) = 1
   \<and> fst (snd (playGame Falsy ''A'' soloStore lossDraws)) = soloStore"
proof -
  obtain dbA where sA: "settleBets 1700000000000 Loss [betA] demoStore = Done dbA"
    and tA: "length (transactions dbA) = 1" and hA: "balanceHistories dbA = []"
    and uA: "users dbA ''B'' = Some playerB"
    using demo_first_settled by (simp add: demoStore_def)
  obtain dbB where sB: "settleBet 1700000000000 Loss betB dbA = Done dbB"
    using demo_settled sA by (simp split: settled.splits)
  have f: "fst (playGame Falsy ''A'' soloStore lossDraws) = Inl (AppError ''Bet amount is required'' 400)"
    by (simp add: playGame_def)
  have e: "transactions soloStore = []" "balanceHistories soloStore = []"
    by (simp_all add: soloStore_def)
  have bB: "settleBets 1700000000000 Loss [betA] demoStore = Done dbA
            \<and> userId betB = Some ''B'' \<and> ''B'' \<noteq> ''anonymous'' \<and> users dbA ''B'' \<noteq> None
            \<and> settleBet 1700000000000 Loss betB dbA = Done dbB"
    using sA sB uA by (simp add: betB_def)
  have lobby: "length (transactions (processPayouts 1700000000000 Loss ([betA] @ [betB]) demoStore)) = 2
     \<and> balanceHistories (processPayouts 1700000000000 Loss ([betA] @ [betB]) demoStore) = []"
    using ledger_records_per_settlement
            [where b = betB and u = "''B''" and rid = 1700000000000 and slotOutcome = Loss
               and pre = "[betA]" and db = demoStore and ?db1.0 = dbA and ?db2.0 = dbB,
             THEN conjunct1, rule_format, OF bB] tA hA
    by auto
  have bG: "settleBets 1700000000000 Loss [] castingStore = Done castingStore
            \<and> settleBet 1700000000000 Loss betGuest castingStore = Thrown castingStore"
    by (simp add: guest_thrown)
  have aborted: "processPayouts 1700000000000 Loss ([] @ betGuest # [betB]) castingStore = castingStore"
    using ledger_records_per_settlement
            [where b = betGuest and rid = 1700000000000 and slotOutcome = Loss
               and pre = "[]" and db = castingStore and ?db1.0 = castingStore
               and dbx = castingStore and post = "[betB]",
             THEN conjunct2, THEN conjunct1, rule_format, OF bG]
    by simp
  have solo: "length (transactions (fst (snd (playGame (Truthy (Num 10)) ''A'' soloStore lossDraws)))) = 1
     \<and> length (balanceHistories (fst (snd (playGame (Truthy (Num 10)) ''A'' soloStore lossDraws)))) = 1"
    using ledger_records_per_settlement
            [where db = soloStore and body = "Truthy (Num 10)" and uid = "''A''"
               and rnd = lossDraws and resp = lossResponse,
             THEN conjunct2, THEN conjunct2, THEN conjunct1, rule_format, OF lossDraws_play] e
    by auto
  have rejected: "fst (snd (playGame Falsy ''A'' soloStore lossDraws)) = soloStore"
    using ledger_records_per_settlement
            [where db = soloStore and body = Falsy and uid = "''A''" and rnd = lossDraws,
             THEN conjunct2, THEN conjunct2, THEN conjunct2, rule_format, OF f] .
  show ?thesis using lobby aborted solo rejected by simp
qed

text \<open>The claim as stated fails in the lobby: after two bets are settled there are two
  transactions and no balance-history record.\<close>

theorem lobby_settlement_writes_no_history:
  "length (transactions (processPayouts 1700000000000 Loss [betA, betB] demoStore)) = 2
   \<and> length (balanceHistories (processPayouts 1700000000000 Loss [betA, betB] demoStore)) = 0"
  by (simp add: demo_payouts_ledger)

subsection \<open>The lobby outcome generator: what the loops reach\<close>

lemma randomIndex_bound:
  assumes "unitDraws rnd" and "0 < n"
  shows "fst (randomIndex n rnd) < n" and "snd (randomIndex n rnd) = stl rnd"
proof -
  have d: "0 \<le> shd rnd" "shd rnd < 1" using unitDraws_shd [OF assms(1)] by simp_all
  have "shd rnd * real n < real n" using d assms(2) by simp
  then have "\<lfloor>shd rnd * real n\<rfloor> < int n" by (simp add: floor_less_iff)
  moreover have "0 \<le> \<lfloor>shd rnd * real n\<rfloor>" using d by simp
  ultimately show "fst (randomIndex n rnd) < n" by (simp add: randomIndex_def nat_less_iff)
  show "snd (randomIndex n rnd) = stl rnd" by (simp add: randomIndex_def)
qed

lemma misses_update_row:
  "i < length xs \<Longrightarrow> xs ! i \<noteq> w \<Longrightarrow>
     Suc (length (filter (\<lambda>x. x \<noteq> w) (xs[i := w]))) = length (filter (\<lambda>x. x \<noteq> w) xs)"
proof (induction xs arbitrary: i)
  case Nil
  then show ?case by simp
next
  case (Cons a xs)
  then show ?case by (cases i) auto
qed

lemma count_update_row:
  "i < length xs \<Longrightarrow> xs ! i \<noteq> w \<Longrightarrow> count_list (xs[i := w]) w = Suc (count_list xs w)"
proof (induction xs arbitrary: i)
  case Nil
  then show ?case by simp
next
  case (Cons a xs)
  then show ?case by (cases i) auto
qed

lemma concat_setCell:
  assumes "c < length rls"
  shows "concat (setCell c r v rls)
           = concat (take c rls) @ (rls ! c)[r := v] @ concat (drop (Suc c) rls)"
    and "concat rls = concat (take c rls) @ rls ! c @ concat (drop (Suc c) rls)"
proof -
  show "concat (setCell c r v rls)
           = concat (take c rls) @ (rls ! c)[r := v] @ concat (drop (Suc c) rls)"
    using assms by (simp add: setCell_def upd_conv_take_nth_drop)
  have "rls = take c rls @ rls ! c # drop (Suc c) rls"
    using assms by (rule id_take_nth_drop)
  then have "concat rls = concat (take c rls @ rls ! c # drop (Suc c) rls)" by simp
  then show "concat rls = concat (take c rls) @ rls ! c @ concat (drop (Suc c) rls)" by simp
qed

lemma misses_setCell:
  assumes "c < length rls" and "r < length (rls ! c)" and "rls ! c ! r \<noteq> winSym"
  shows "Suc (misses winSym (setCell c r winSym rls)) = misses winSym rls"
proof -
  note a = concat_setCell(1) [OF assms(1), of r winSym] and b = concat_setCell(2) [OF assms(1)]
  have "Suc (length (filter (\<lambda>x. x \<noteq> winSym)
          (concat (take c rls) @ (rls ! c)[r := winSym] @ concat (drop (Suc c) rls))))
        = length (filter (\<lambda>x. x \<noteq> winSym)
          (concat (take c rls) @ rls ! c @ concat (drop (Suc c) rls)))"
    using misses_update_row [OF assms(2,3)] by simp
  then show ?thesis unfolding misses_def a by (simp only: b [symmetric])
qed

lemma occurrences_setCell:
  assumes "c < length rls" and "r < length (rls ! c)" and "rls ! c ! r \<noteq> winSym"
  shows "occurrences winSym (setCell c r winSym rls) = Suc (occurrences winSym rls)"
proof -
  note a = concat_setCell(1) [OF assms(1), of r winSym] and b = concat_setCell(2) [OF assms(1)]
  have "count_list (concat (take c rls) @ (rls ! c)[r := winSym] @ concat (drop (Suc c) rls)) winSym
        = Suc (count_list (concat (take c rls) @ rls ! c @ concat (drop (Suc c) rls)) winSym)"
    using count_update_row [OF assms(2,3)] by simp
  then show ?thesis unfolding occurrences_def a by (simp only: b [symmetric])
qed

lemma wellShaped_setCell:
  assumes "wellShaped rls"
  shows "wellShaped (setCell c r v rls)"
proof (cases "c < length rls")
  case True
  have "length ((rls ! c)[r := v]) = 5"
    using assms True unfolding wellShaped_def by simp
  moreover have "set (rls[c := (rls ! c)[r := v]]) \<subseteq> insert ((rls ! c)[r := v]) (set rls)"
    by (rule set_update_subset_insert)
  ultimately show ?thesis
    using assms unfolding wellShaped_def setCell_def by auto
next
  case False
  then show ?thesis using assms by (simp add: setCell_def list_update_beyond not_less)
qed

lemma wellShaped_cell:
  "wellShaped rls \<Longrightarrow> c < 6 \<Longrightarrow> c < length rls \<and> length (rls ! c) = 5"
  unfolding wellShaped_def by simp

lemma forceWin_too_few_misses:
  assumes "forceWin winSym count rls rnd = Some y"
  shows "\<not> (wellShaped rls \<and> unitDraws rnd \<and> count + misses winSym rls < 12)"
proof (rule forceWin.raw_induct
         [where P = "\<lambda>winSym count rls rnd y.
                       \<not> (wellShaped rls \<and> unitDraws rnd \<and> count + misses winSym rls < 12)",
          OF _ assms], goal_cases)
  case (1 f winSym count rls rnd y)
  show ?case
  proof
    assume inv: "wellShaped rls \<and> unitDraws rnd \<and> count + misses winSym rls < 12"
    then have ws: "wellShaped rls" and ud: "unitDraws rnd"
      and few: "count + misses winSym rls < 12" by simp_all
    define c where "c = fst (randomIndex 6 rnd)"
    define r where "r = fst (randomIndex 5 (stl rnd))"
    have ud2: "unitDraws (stl (stl rnd))" using ud by (intro unitDraws_stl)
    have c6: "c < 6" unfolding c_def using randomIndex_bound(1) [OF ud] by simp
    have r5: "r < 5" unfolding r_def using randomIndex_bound(1) [OF unitDraws_stl [OF ud]] by simp
    have cl: "c < length rls" and rl: "r < length (rls ! c)"
      using wellShaped_cell [OF ws c6] r5 by simp_all
    have ri: "randomIndex 6 rnd = (c, stl rnd)" "randomIndex 5 (stl rnd) = (r, stl (stl rnd))"
      by (simp_all add: c_def r_def randomIndex_def)
    from few have lt: "count < 12" by simp
    show False
    proof (cases "rls ! c ! r \<noteq> winSym")
      case True
      with 1(2) lt ri have "f winSym (count + 1) (setCell c r winSym rls) (stl (stl rnd)) = Some y"
        by simp
      from 1(1) [OF this] misses_setCell [OF cl rl True] wellShaped_setCell [OF ws] ud2 few
      show False by simp
    next
      case False
      with 1(2) lt ri have "f winSym count rls (stl (stl rnd)) = Some y" by simp
      from 1(1) [OF this] ws ud2 few show False by simp
    qed
  qed
qed

lemma forceWin_diverges:
  assumes "wellShaped rls" and "unitDraws rnd" and "count + misses winSym rls < 12"
  shows "forceWin winSym count rls rnd = None"
proof (cases "forceWin winSym count rls rnd")
  case None
  then show ?thesis .
next
  case (Some y)
  from forceWin_too_few_misses [OF this] assms show ?thesis by simp
qed

lemma forceWin_counts:
  assumes "forceWin winSym count rls rnd = Some y"
  shows "wellShaped rls \<and> unitDraws rnd \<and> count \<le> 12 \<longrightarrow>
           occurrences winSym (fst y) + count = occurrences winSym rls + 12 \<and> wellShaped (fst y)"
proof (rule forceWin.raw_induct
         [where P = "\<lambda>winSym count rls rnd y. wellShaped rls \<and> unitDraws rnd \<and> count \<le> 12 \<longrightarrow>
                       occurrences winSym (fst y) + count = occurrences winSym rls + 12
                       \<and> wellShaped (fst y)",
          OF _ assms], goal_cases)
  case (1 f winSym count rls rnd y)
  show ?case
  proof
    assume inv: "wellShaped rls \<and> unitDraws rnd \<and> count \<le> 12"
    then have ws: "wellShaped rls" and ud: "unitDraws rnd" and le: "count \<le> 12" by simp_all
    show "occurrences winSym (fst y) + count = occurrences winSym rls + 12 \<and> wellShaped (fst y)"
    proof (cases "count < 12")
      case False
      with 1(2) le ws show ?thesis by auto
    next
      case lt: True
      define c where "c = fst (randomIndex 6 rnd)"
      define r where "r = fst (randomIndex 5 (stl rnd))"
      have ud2: "unitDraws (stl (stl rnd))" using ud by (intro unitDraws_stl)
      have c6: "c < 6" unfolding c_def using randomIndex_bound(1) [OF ud] by simp
      have r5: "r < 5" unfolding r_def using randomIndex_bound(1) [OF unitDraws_stl [OF ud]] by simp
      have cl: "c < length rls" and rl: "r < length (rls ! c)"
        using wellShaped_cell [OF ws c6] r5 by simp_all
      have ri: "randomIndex 6 rnd = (c, stl rnd)" "randomIndex 5 (stl rnd) = (r, stl (stl rnd))"
        by (simp_all add: c_def r_def randomIndex_def)
      show ?thesis
      proof (cases "rls ! c ! r \<noteq> winSym")
        case True
        with 1(2) lt ri have "f winSym (count + 1) (setCell c r winSym rls) (stl (stl rnd)) = Some y"
          by simp
        from 1(1) [OF this] occurrences_setCell [OF cl rl True] wellShaped_setCell [OF ws] ud2 lt
        show ?thesis by simp
      next
        case False
        with 1(2) lt ri have "f winSym count rls (stl (stl rnd)) = Some y" by simp
        from 1(1) [OF this] ws ud2 le show ?thesis by simp
      qed
    qed
  qed
qed

lemma capped_fill:
  "fillWith 6 (fillWith 5 randomSymbol) cappedDraws = (cappedStart, sconst 0)"
  by (simp add: cappedDraws_def cappedStart_def eval_nat_numeral randomSymbol_def randomIndex_def SYMBOLS_def)

lemma pickOther_zero: "symb \<noteq> Oval \<Longrightarrow> pickOther symb (sconst 0) = Some (Oval, sconst 0)"
  by (subst pickOther.simps) (simp add: randomSymbol_def randomIndex_def SYMBOLS_def)

lemma capped_scan:
  "capSymbols SYMBOLS cappedStart (sconst 0) = Some (cappedEnd, sconst 0)"
  by (simp add: SYMBOLS_def cappedStart_def cappedEnd_def gridCells_def upt_rec setCell_def pickOther_zero)

lemma randomSymbol_zero: "randomSymbol (0 ## s) = (Oval, s)"
  by (simp add: randomSymbol_def randomIndex_def SYMBOLS_def)

lemma fill_row_zero: "fillWith m randomSymbol (replicate m 0 @- s) = (replicate m Oval, s)"
  by (induction m) (simp_all add: randomSymbol_zero)

lemma fill_grid_zero:
  "fillWith n (fillWith m randomSymbol) (replicate (n * m) 0 @- s)
     = (replicate n (replicate m Oval), s)"
proof (induction n)
  case 0
  then show ?case by simp
next
  case (Suc n)
  have "replicate (Suc n * m) (0::real) = replicate m 0 @ replicate (n * m) 0"
    by (simp add: replicate_add)
  then show ?case by (simp add: fill_row_zero Suc.IH)
qed

lemma misses_all_oval: "misses Oval (replicate n (replicate m Oval)) = 0"
  by (induction n) (simp_all add: misses_def)

lemma wellShaped_all_oval: "wellShaped (replicate 6 (replicate 5 Oval))"
  by (simp add: wellShaped_def)

lemma randomSymbol_unitDraws: "unitDraws r \<Longrightarrow> unitDraws (snd (randomSymbol r))"
  by (simp add: randomSymbol_def randomIndex_def unitDraws_stl)

lemma fillWith_length: "length (fst (fillWith n f r)) = n"
proof (induction n arbitrary: r)
  case 0
  then show ?case by simp
next
  case (Suc n)
  obtain x r1 where f: "f r = (x, r1)" by (cases "f r")
  obtain xs r2 where g: "fillWith n f r1 = (xs, r2)" by (cases "fillWith n f r1")
  from Suc.IH [of r1] g show ?case by (simp add: f)
qed

lemma fillWith_all:
  assumes "\<And>r. P (fst (f r))"
  shows "\<forall>x \<in> set (fst (fillWith n f r)). P x"
proof (induction n arbitrary: r)
  case 0
  then show ?case by simp
next
  case (Suc n)
  obtain x r1 where f: "f r = (x, r1)" by (cases "f r")
  obtain xs r2 where g: "fillWith n f r1 = (xs, r2)" by (cases "fillWith n f r1")
  from assms [of r] f have "P x" by simp
  with Suc.IH [of r1] g show ?case by (simp add: f)
qed

lemma fill_grid_wellShaped: "wellShaped (fst (fillWith 6 (fillWith 5 randomSymbol) r))"
  unfolding wellShaped_def
  by (rule conjI, rule fillWith_length, rule fillWith_all, rule fillWith_length)

lemma fill_grid_unitDraws:
  assumes "unitDraws r"
  shows "unitDraws (snd (fillWith 6 (fillWith 5 randomSymbol) r))"
  by (rule fillWith_unitDraws [OF _ assms], rule fillWith_unitDraws [OF randomSymbol_unitDraws])

lemma win_grid_has_twelve:
  assumes "unitDraws rnd" and "generateSlotOutcome Win rnd = Some (g, rnd')"
  shows "\<exists>symb. 12 \<le> occurrences symb (reels g)"
proof -
  obtain rls rnd1 where fill: "fillWith 6 (fillWith 5 randomSymbol) rnd = (rls, rnd1)"
    by (cases "fillWith 6 (fillWith 5 randomSymbol) rnd")
  obtain winSym rnd2 where pick: "randomSymbol rnd1 = (winSym, rnd2)"
    by (cases "randomSymbol rnd1")
  have ws: "wellShaped rls" using fill_grid_wellShaped [of rnd] fill by simp
  have u1: "unitDraws rnd1" using fill_grid_unitDraws [OF assms(1)] fill by simp
  have u2: "unitDraws rnd2" using randomSymbol_unitDraws [OF u1] pick by simp
  from assms(2) obtain rls' where loop: "forceWin winSym 0 rls rnd2 = Some (rls', rnd')"
    and g: "reels g = rls'"
    by (auto simp: generateSlotOutcome_def fill pick split: option.splits)
  from forceWin_counts [OF loop] ws u2
  have "occurrences winSym rls' = occurrences winSym rls + 12" by simp
  then have "12 \<le> occurrences winSym (reels g)" using g by simp
  then show ?thesis by blast
qed

text \<open>
  C9. Whenever the \<open>win\<close> branch returns, the chosen symbol fills at least twelve
  cells (\<open>win_grid_has_twelve\<close>). It does not return for every initial grid: the loop
  counts the cells it overwrites, not the cells that hold the symbol, so on a grid
  with fewer than twelve cells that differ from the chosen symbol it never ends
  (\<open>forceWin_diverges\<close>). Thirty-one draws of 0 produce the all-\<open>Oval\<close> grid and the
  chosen symbol \<open>Oval\<close>; whatever is drawn afterwards, the generator returns nothing.
\<close>

theorem win_forcing_never_returns:
  assumes "unitDraws rnd"
  shows "generateSlotOutcome Win (replicate 31 0 @- rnd) = None"
proof -
  have split: "replicate 31 (0::real) @- rnd = replicate (6 * 5) 0 @- (0 ## rnd)"
    by (simp add: eval_nat_numeral)
  have loop: "forceWin Oval 0 (replicate 6 (replicate 5 Oval)) rnd = None"
    by (rule forceWin_diverges [OF wellShaped_all_oval assms]) (simp add: misses_all_oval)
  show ?thesis
    unfolding generateSlotOutcome_def split fill_grid_zero
    by (simp add: randomSymbol_zero loop)
qed

theorem win_forcing_never_returns_witness:
  "unitDraws (sconst (1/2)) \<and> generateSlotOutcome Win (replicate 31 0 @- sconst (1/2)) = None"
proof -
  have u: "unitDraws (sconst (1/2))" by (simp add: unitDraws_def)
  from win_forcing_never_returns [OF u] u show ?thesis by simp
qed

lemma cappedDraws_unit: "unitDraws cappedDraws"
  by (simp add: unitDraws_def cappedDraws_def)

text \<open>
  C4. The \<open>loss\<close> branch caps the symbols one after the other and replaces an excess
  cell by any other symbol, also by one whose scan is over. On the draws
  \<open>cappedDraws\<close> the excess \<open>Grapes\<close> become \<open>Oval\<close> after \<open>Oval\<close> was scanned, and
  the grid that is returned under the decision \<open>loss\<close> holds \<open>Oval\<close> in 23 cells.
  The draws are within the contract of the random source (\<open>cappedDraws_unit\<close>).
\<close>

theorem loss_grid_with_23_of_a_kind:
  "generateSlotOutcome Loss cappedDraws
       = Some (\<lparr> reels = cappedEnd, outcome = Loss, winAmount = 0 \<rparr>, sconst 0)
   \<and> occurrences Oval cappedEnd = 23"
proof -
  have "generateSlotOutcome Loss cappedDraws
       = Some (\<lparr> reels = cappedEnd, outcome = Loss, winAmount = 0 \<rparr>, sconst 0)"
    by (simp add: generateSlotOutcome_def capped_fill capped_scan)
  moreover have "occurrences Oval cappedEnd = 23"
    by (simp add: occurrences_def cappedEnd_def)
  ultimately show ?thesis by simp
qed

subsection \<open>The round loop: requests served during the result computation\<close>

lemma generateSlotOutcome_outcome:
  assumes "generateSlotOutcome decision rnd = Some (slot, rnd')"
  shows "outcome slot = decision"
  using assms by (auto simp: generateSlotOutcome_def split: prod.splits option.splits if_splits)

lemma handleRequest_spinning:
  assumes "phase (wSession w) = SPINNING"
  shows "wSession (handleRequest req w)
           = (wSession w)\<lparr>adminDecision := adminDecision (wSession (handleRequest req w))\<rparr>"
    and "wStore (handleRequest req w) = wStore w"
    and "wRandom (handleRequest req w) = wRandom w"
  using assms
  by (cases req; simp add: handleRequest_def addBet_def setAdminDecision_def)+

lemma handleRequests_spinning:
  assumes "phase (wSession w) = SPINNING"
  shows "wSession (handleRequests reqs w)
           = (wSession w)\<lparr>adminDecision := adminDecision (wSession (handleRequests reqs w))\<rparr>
         \<and> wStore (handleRequests reqs w) = wStore w
         \<and> wRandom (handleRequests reqs w) = wRandom w"
  using assms
proof (induction reqs arbitrary: w)
  case Nil
  then show ?case by (simp add: handleRequests_def)
next
  case (Cons req reqs)
  let ?w1 = "handleRequest req w"
  note h = handleRequest_spinning [OF Cons.prems, of req]
  have p: "phase (wSession ?w1) = SPINNING"
    by (subst h(1)) (simp add: Cons.prems)
  have step: "handleRequests (req # reqs) w = handleRequests reqs ?w1"
    by (simp add: handleRequests_def)
  from Cons.IH [OF p]
  have ih: "wSession (handleRequests reqs ?w1)
              = (wSession ?w1)\<lparr>adminDecision := adminDecision (wSession (handleRequests reqs ?w1))\<rparr>"
    and st: "wStore (handleRequests reqs ?w1) = wStore ?w1"
    and rn: "wRandom (handleRequests reqs ?w1) = wRandom ?w1"
    by simp_all
  have "wSession (handleRequests reqs ?w1)
          = (wSession w)\<lparr>adminDecision := adminDecision (wSession (handleRequests reqs ?w1))\<rparr>"
    by (subst ih, subst h(1)) simp
  then show ?case unfolding step using st rn h(2,3) by simp
qed

text \<open>The state in which \<^verbatim>\<open>calculateResult\<close> goes on after the database calls.\<close>

lemma calculateResult_spinning:
  assumes "phase (wSession w) = SPINNING" and "calculateResult env w = Some w'"
  shows "map_option outcome (result (wSession w')) = Some (calculateDecision (wSession w))"
    and "wStore w' = processPayouts (roundId (wSession w)) (calculateDecision (wSession w))
                       (bets (wSession w)) (wStore w)"
    and "wSession w' = (wSession w)\<lparr>adminDecision := adminDecision (wSession w'),
                                    result := result (wSession w')\<rparr>"
    and "adminDecision (wSession w') =
           (if awaitsDatabase (calculateDecision (wSession w)) (bets (wSession w))
            then adminDecision (wSession (handleRequests (arrivals env) w))
            else adminDecision (wSession w))"
proof -
  define d where "d = calculateDecision (wSession w)"
  define w1 where "w1 = (if awaitsDatabase d (bets (wSession w))
                         then handleRequests (arrivals env) w else w)"
  from assms(2) obtain slot rnd1 where
    gen: "generateSlotOutcome d (wRandom w) = Some (slot, rnd1)"
    by (auto simp: calculateResult_def Let_def d_def split: option.splits)
  obtain winnersList rnd2 where
    wl: "generateWinnersList (engineSort env) d (bets (wSession w)) (wStore w) rnd1
           = (winnersList, rnd2)"
    by (cases "generateWinnersList (engineSort env) d (bets (wSession w)) (wStore w) rnd1")
  have w': "w' = w1\<lparr> wSession := (wSession w1)\<lparr>result := Some (slotResult.extend slot
                                                        (gameResult.fields winnersList))\<rparr>,
                     wStore := processPayouts (roundId (wSession w1)) d (bets (wSession w1)) (wStore w1),
                     wRandom := rnd2 \<rparr>"
    using assms(2) gen wl
    by (simp add: calculateResult_def Let_def d_def [symmetric] w1_def [symmetric])
  have s1: "wSession w1 = (wSession w)\<lparr>adminDecision := adminDecision (wSession w1)\<rparr>"
    and st1: "wStore w1 = wStore w"
    using handleRequests_spinning [OF assms(1), of "arrivals env"] by (auto simp: w1_def)
  have b1: "bets (wSession w1) = bets (wSession w)" and r1: "roundId (wSession w1) = roundId (wSession w)"
    by (subst s1, simp)+
  have o: "outcome slot = d" by (rule generateSlotOutcome_outcome [OF gen])
  show "map_option outcome (result (wSession w')) = Some (calculateDecision (wSession w))"
    using o by (simp add: w' d_def slotResult.defs gameResult.defs)
  show "wStore w' = processPayouts (roundId (wSession w)) (calculateDecision (wSession w))
                       (bets (wSession w)) (wStore w)"
    by (simp add: w' b1 r1 st1 d_def)
  have "wSession w' = (wSession w1)\<lparr>result := result (wSession w')\<rparr>" by (simp add: w')
  then show "wSession w' = (wSession w)\<lparr>adminDecision := adminDecision (wSession w'),
                                    result := result (wSession w')\<rparr>"
    by (subst (asm) s1) (simp add: w')
  show "adminDecision (wSession w') =
           (if awaitsDatabase (calculateDecision (wSession w)) (bets (wSession w))
            then adminDecision (wSession (handleRequests (arrivals env) w))
            else adminDecision (wSession w))"
    by (simp add: w' w1_def d_def)
qed

lemma calculateResult_returns:
  assumes "generateSlotOutcome (calculateDecision (wSession w)) (wRandom w) \<noteq> None"
  shows "\<exists>w'. calculateResult env w = Some w'"
  using assms by (auto simp: calculateResult_def Let_def split: option.splits prod.splits)


subsection \<open>The round loop and its recovery\<close>



lemma calculateDecision_timeLeft:
  "calculateDecision (s\<lparr>timeLeft := t\<rparr>) = calculateDecision s"
  by (simp add: calculateDecision_def)


lemma nextPhase_spinning:
  assumes "phase (wSession w) = SPINNING"
    and "generateSlotOutcome (calculateDecision (wSession w)) (wRandom w) \<noteq> None"
  shows "\<exists>w'. nextPhase env w = Some w'
            \<and> phase (wSession w') = RESULT \<and> timeLeft (wSession w') = 10
            \<and> bets (wSession w') = bets (wSession w)
            \<and> map_option outcome (result (wSession w')) = Some (calculateDecision (wSession w))
            \<and> wStore w' = processPayouts (roundId (wSession w)) (calculateDecision (wSession w))
                             (bets (wSession w)) (wStore w)
            \<and> adminDecision (wSession w') =
                (if awaitsDatabase (calculateDecision (wSession w)) (bets (wSession w))
                 then adminDecision (wSession (handleRequests (arrivals env) w))
                 else adminDecision (wSession w))"
proof -
  from calculateResult_returns [OF assms(2)] obtain v where v: "calculateResult env w = Some v"
    by blast
  note c = calculateResult_spinning [OF assms(1) v]
  let ?w' = "v\<lparr>wSession := (wSession v)\<lparr>phase := RESULT, timeLeft := ROUND_TIMES RESULT\<rparr>\<rparr>"
  have n: "nextPhase env w = Some ?w'" using assms(1) v by (simp add: nextPhase_def)
  have b: "bets (wSession v) = bets (wSession w)" by (subst c(3)) simp
  have "phase (wSession ?w') = RESULT \<and> timeLeft (wSession ?w') = 10
            \<and> bets (wSession ?w') = bets (wSession w)
            \<and> map_option outcome (result (wSession ?w')) = Some (calculateDecision (wSession w))
            \<and> wStore ?w' = processPayouts (roundId (wSession w)) (calculateDecision (wSession w))
                             (bets (wSession w)) (wStore w)
            \<and> adminDecision (wSession ?w') =
                (if awaitsDatabase (calculateDecision (wSession w)) (bets (wSession w))
                 then adminDecision (wSession (handleRequests (arrivals env) w))
                 else adminDecision (wSession w))"
    using c(1,2,4) b by (simp add: ROUND_TIMES_def)
  with n show ?thesis by blast
qed


lemma capped_outcome:
  "generateSlotOutcome Loss cappedDraws
       = Some (\<lparr> reels = cappedEnd, outcome = Loss, winAmount = 0 \<rparr>, sconst 0)"
  by (simp add: generateSlotOutcome_def capped_fill capped_scan)



lemma demoWorld_decision: "calculateDecision (wSession demoWorld) = Loss"
  by (simp add: demoWorld_def demoSession_def calculateDecision_def betsTotal_def betA_def betB_def)

lemma demoWorld_fields:
  "bets (wSession demoWorld) = [betA, betB]"
  "roundId (wSession demoWorld) = 1700000000000"
  "wStore demoWorld = demoStore"
  "wRandom demoWorld = cappedDraws"
  "timeLeft (wSession demoWorld) = 1"
  "phase (wSession demoWorld) = SPINNING"
  "adminDecision (wSession demoWorld) = None"
  by (simp_all add: demoWorld_def demoSession_def)



lemma overrideWorld_fields:
  "phase (wSession overrideWorld) = SPINNING"
  "adminDecision (wSession overrideWorld) = Some Loss"
  "calculateDecision (wSession overrideWorld) = Loss"
  "bets (wSession overrideWorld) = [betA, betB]"
  "roundId (wSession overrideWorld) = 1700000000000"
  "wStore overrideWorld = demoStore"
  "wRandom overrideWorld = cappedDraws"
  "timeLeft (wSession overrideWorld) = 1"
  by (simp_all add: overrideWorld_def demoSession_def setAdminDecision_def calculateDecision_def)





lemma tick_ends_phase:
  assumes "failure env = NoFailure" and "timeLeft (wSession w) = 1"
  shows "tick env w =
           map_option (\<lambda>w2. if secondIsZero env then w2\<lparr>wPlayers := {}\<rparr> else w2)
             (nextPhase env (w\<lparr>wSession := (wSession w)\<lparr>timeLeft := 0\<rparr>\<rparr>))"
  using assms by (simp add: tick_def Let_def split: option.splits)






subsection \<open>The admin override\<close>

lemma calculateDecision_override:
  "adminDecision s = Some d \<Longrightarrow> calculateDecision s = d"
  by (simp add: calculateDecision_def Let_def)

lemma demo_awaits: "awaitsDatabase Loss [betA, betB]"
  by (simp add: awaitsDatabase_def betA_def betB_def)

text \<open>
  C8 (as the code has it). An override set while the phase is \<open>SPINNING\<close> is stored.
  The round's decision is read once, when the last tick of \<open>SPINNING\<close> starts the
  result computation: an override stored by then is the decision, whatever the bets
  and the cycle position are, and whenever the outcome generator returns for it, the
  computation returns, the published outcome and the payouts are those of the override
  and the tick ends in \<open>RESULT\<close>. The phase is still \<open>SPINNING\<close> while the
  computation awaits the database: an override that arrives then is stored as well,
  but the outcome is the decision read before. In \<open>BETTING\<close> and in \<open>RESULT\<close> the
  call changes nothing.
\<close>

theorem override_only_in_spinning:
  "(phase s = SPINNING \<longrightarrow>
      adminDecision (setAdminDecision (Some d) s) = Some d
      \<and> calculateDecision ((setAdminDecision (Some d) s)\<lparr>roundCycle := c, bets := bs\<rparr>) = d)
   \<and> (phase (wSession w) = SPINNING \<and> adminDecision (wSession w) = Some d
        \<and> generateSlotOutcome d (wRandom w) \<noteq> None \<longrightarrow>
        (\<exists>w'. calculateResult env w = Some w'
             \<and> map_option outcome (result (wSession w')) = Some d
             \<and> wStore w' = processPayouts (roundId (wSession w)) d (bets (wSession w)) (wStore w)))
   \<and> (phase (wSession w) = SPINNING \<and> timeLeft (wSession w) = 1 \<and> failure env = NoFailure
        \<and> adminDecision (wSession w) = Some d
        \<and> generateSlotOutcome d (wRandom w) \<noteq> None \<longrightarrow>
        (\<exists>v. tick env w = Some v
            \<and> phase (wSession v) = RESULT
            \<and> map_option outcome (result (wSession v)) = Some d
            \<and> wStore v = processPayouts (roundId (wSession w)) d (bets (wSession w)) (wStore w)))
   \<and> (phase (wSession w) = SPINNING
        \<and> generateSlotOutcome (calculateDecision (wSession w)) (wRandom w) \<noteq> None
        \<and> awaitsDatabase (calculateDecision (wSession w)) (bets (wSession w))
        \<and> arrivals env = [Override late] \<longrightarrow>
        (\<exists>w'. calculateResult env w = Some w'
             \<and> adminDecision (wSession w') = late
             \<and> map_option outcome (result (wSession w')) = Some (calculateDecision (wSession w))))
   \<and> (phase s \<noteq> SPINNING \<longrightarrow> setAdminDecision dec s = s)"
proof (intro conjI impI)
  assume "phase s = SPINNING"
  then show "adminDecision (setAdminDecision (Some d) s) = Some d"
    and "calculateDecision ((setAdminDecision (Some d) s)\<lparr>roundCycle := c, bets := bs\<rparr>) = d"
    by (simp_all add: setAdminDecision_def calculateDecision_def Let_def)
next
  assume a: "phase (wSession w) = SPINNING \<and> adminDecision (wSession w) = Some d
        \<and> generateSlotOutcome d (wRandom w) \<noteq> None"
  then have p: "phase (wSession w) = SPINNING"
    and d: "calculateDecision (wSession w) = d"
    by (simp_all add: calculateDecision_override)
  have "generateSlotOutcome (calculateDecision (wSession w)) (wRandom w) \<noteq> None"
    using a d by simp
  from calculateResult_returns [OF this] obtain w' where r: "calculateResult env w = Some w'"
    by blast
  note c = calculateResult_spinning [OF p r]
  have "map_option outcome (result (wSession w')) = Some d"
    "wStore w' = processPayouts (roundId (wSession w)) d (bets (wSession w)) (wStore w)"
    using c(1,2) d by simp_all
  with r show "\<exists>w'. calculateResult env w = Some w'
             \<and> map_option outcome (result (wSession w')) = Some d
             \<and> wStore w' = processPayouts (roundId (wSession w)) d (bets (wSession w)) (wStore w)"
    by blast
next
  assume a: "phase (wSession w) = SPINNING \<and> timeLeft (wSession w) = 1 \<and> failure env = NoFailure
        \<and> adminDecision (wSession w) = Some d
        \<and> generateSlotOutcome d (wRandom w) \<noteq> None"
  let ?w0 = "w\<lparr>wSession := (wSession w)\<lparr>timeLeft := 0\<rparr>\<rparr>"
  let ?clear = "\<lambda>w2. if secondIsZero env then w2\<lparr>wPlayers := {}\<rparr> else w2"
  from a have t: "timeLeft (wSession w) = 1" and f: "failure env = NoFailure" by simp_all
  have p0: "phase (wSession ?w0) = SPINNING" using a by simp
  have d0: "calculateDecision (wSession ?w0) = d"
    using a by (simp add: calculateDecision_override)
  have "generateSlotOutcome (calculateDecision (wSession ?w0)) (wRandom ?w0) \<noteq> None"
    unfolding d0 using a by simp
  from nextPhase_spinning [OF p0 this, of env] obtain w2 where
    n: "nextPhase env ?w0 = Some w2" and p2: "phase (wSession w2) = RESULT"
    and o2: "map_option outcome (result (wSession w2)) = Some d"
    and s2: "wStore w2 = processPayouts (roundId (wSession w)) d (bets (wSession w)) (wStore w)"
    unfolding d0 by auto
  have "tick env w = Some (?clear w2)"
    unfolding tick_ends_phase [OF f t] n by simp
  moreover have "phase (wSession (?clear w2)) = RESULT"
    "map_option outcome (result (wSession (?clear w2))) = Some d"
    "wStore (?clear w2) = processPayouts (roundId (wSession w)) d (bets (wSession w)) (wStore w)"
    using p2 o2 s2 by simp_all
  ultimately show "\<exists>v. tick env w = Some v
            \<and> phase (wSession v) = RESULT
            \<and> map_option outcome (result (wSession v)) = Some d
            \<and> wStore v = processPayouts (roundId (wSession w)) d (bets (wSession w)) (wStore w)"
    by blast
next
  assume a: "phase (wSession w) = SPINNING
        \<and> generateSlotOutcome (calculateDecision (wSession w)) (wRandom w) \<noteq> None
        \<and> awaitsDatabase (calculateDecision (wSession w)) (bets (wSession w))
        \<and> arrivals env = [Override late]"
  then have p: "phase (wSession w) = SPINNING"
    and g: "generateSlotOutcome (calculateDecision (wSession w)) (wRandom w) \<noteq> None"
    by simp_all
  from calculateResult_returns [OF g] obtain w' where r: "calculateResult env w = Some w'"
    by blast
  note c = calculateResult_spinning [OF p r]
  have "adminDecision (wSession w') = late"
    using c(4) a by (simp add: handleRequests_def handleRequest_def setAdminDecision_def)
  with r c(1) show "\<exists>w'. calculateResult env w = Some w'
             \<and> adminDecision (wSession w') = late
             \<and> map_option outcome (result (wSession w')) = Some (calculateDecision (wSession w))"
    by blast
next
  assume "phase s \<noteq> SPINNING"
  then show "setAdminDecision dec s = s" by (simp add: setAdminDecision_def)
qed

theorem override_only_in_spinning_witness:
  "calculateDecision (demoSession SPINNING 1 3) = Win
   \<and> adminDecision (setAdminDecision (Some Loss) (demoSession SPINNING 1 3)) = Some Loss
   \<and> (\<exists>w'. calculateResult quietEnv overrideWorld = Some w'
          \<and> map_option outcome (result (wSession w')) = Some Loss
          \<and> users (wStore w') = [''A'' \<mapsto> playerA, ''B'' \<mapsto> playerB\<lparr>balance := 130\<rparr>])
   \<and> (\<exists>v. tick quietEnv overrideWorld = Some v
          \<and> phase (wSession v) = RESULT
          \<and> map_option outcome (result (wSession v)) = Some Loss)
   \<and> (\<exists>w'. calculateResult lateOverrideEnv demoWorld = Some w'
          \<and> adminDecision (wSession w') = Some Win
          \<and> map_option outcome (result (wSession w')) = Some Loss)
   \<and> setAdminDecision (Some Win) (demoSession BETTING 7 5) = demoSession BETTING 7 5
   \<and> setAdminDecision (Some Win) (demoSession RESULT 7 5) = demoSession RESULT 7 5"
proof -
  note o = overrideWorld_fields and dw = demoWorld_fields
  have d3: "calculateDecision (demoSession SPINNING 1 3) = Win"
    by (simp add: demoSession_def betA_def betB_def calculateDecision_def betsTotal_def)
  have stored: "adminDecision (setAdminDecision (Some Loss) (demoSession SPINNING 1 3)) = Some Loss"
    using override_only_in_spinning
            [where s = "demoSession SPINNING 1 3" and d = Loss, THEN conjunct1]
    by (simp add: demoSession_def)
  have h1: "phase (wSession overrideWorld) = SPINNING
            \<and> adminDecision (wSession overrideWorld) = Some Loss
            \<and> generateSlotOutcome Loss (wRandom overrideWorld) \<noteq> None"
    by (simp add: o capped_outcome)
  from override_only_in_spinning
         [where w = overrideWorld and d = Loss and env = quietEnv,
          THEN conjunct2, THEN conjunct1, rule_format, OF h1]
  have c1: "\<exists>w'. calculateResult quietEnv overrideWorld = Some w'
          \<and> map_option outcome (result (wSession w')) = Some Loss
          \<and> users (wStore w') = [''A'' \<mapsto> playerA, ''B'' \<mapsto> playerB\<lparr>balance := 130\<rparr>]"
    by (auto simp: o demo_payouts_users)
  have h2: "phase (wSession overrideWorld) = SPINNING \<and> timeLeft (wSession overrideWorld) = 1
            \<and> failure quietEnv = NoFailure
            \<and> adminDecision (wSession overrideWorld) = Some Loss
            \<and> generateSlotOutcome Loss (wRandom overrideWorld) \<noteq> None"
    by (simp add: o quietEnv_def capped_outcome)
  from override_only_in_spinning
         [where w = overrideWorld and d = Loss and env = quietEnv,
          THEN conjunct2, THEN conjunct2, THEN conjunct1, rule_format, OF h2]
  have c2: "\<exists>v. tick quietEnv overrideWorld = Some v
          \<and> phase (wSession v) = RESULT
          \<and> map_option outcome (result (wSession v)) = Some Loss"
    by auto
  have h3: "phase (wSession demoWorld) = SPINNING
            \<and> generateSlotOutcome (calculateDecision (wSession demoWorld)) (wRandom demoWorld) \<noteq> None
            \<and> awaitsDatabase (calculateDecision (wSession demoWorld)) (bets (wSession demoWorld))
            \<and> arrivals lateOverrideEnv = [Override (Some Win)]"
    by (simp add: dw demoWorld_decision demo_awaits lateOverrideEnv_def capped_outcome)
  from override_only_in_spinning
         [where w = demoWorld and env = lateOverrideEnv and late = "Some Win",
          THEN conjunct2, THEN conjunct2, THEN conjunct2, THEN conjunct1, rule_format, OF h3]
  have c3: "\<exists>w'. calculateResult lateOverrideEnv demoWorld = Some w'
          \<and> adminDecision (wSession w') = Some Win
          \<and> map_option outcome (result (wSession w')) = Some Loss"
    by (simp add: demoWorld_decision)
  have c4: "setAdminDecision (Some Win) (demoSession BETTING 7 5) = demoSession BETTING 7 5"
    using override_only_in_spinning
            [where s = "demoSession BETTING 7 5" and dec = "Some Win",
             THEN conjunct2, THEN conjunct2, THEN conjunct2, THEN conjunct2]
    by (simp add: demoSession_def)
  have c5: "setAdminDecision (Some Win) (demoSession RESULT 7 5) = demoSession RESULT 7 5"
    using override_only_in_spinning
            [where s = "demoSession RESULT 7 5" and dec = "Some Win",
             THEN conjunct2, THEN conjunct2, THEN conjunct2, THEN conjunct2]
    by (simp add: demoSession_def)
  from d3 stored c1 c2 c3 c4 c5 show ?thesis by blast
qed

text \<open>The claim as stated fails for an override that arrives while the result is
  computed. The round of \<open>A\<close> and \<open>B\<close> is in its last second of \<open>SPINNING\<close> with no
  override; its decision at cycle position 5 is \<open>loss\<close>. The override \<open>win\<close> arrives
  while the tick awaits the lookup of \<open>B\<close>: the phase is \<open>SPINNING\<close>, so it is
  stored, but the outcome of the round is \<open>loss\<close> and \<open>A\<close>, who bet on \<open>win\<close>, is
  paid nothing.\<close>

theorem late_override_not_used:
  "phase (wSession demoWorld) = SPINNING
   \<and> adminDecision (wSession demoWorld) = None
   \<and> (\<exists>v. tick lateOverrideEnv demoWorld = Some v
          \<and> phase (wSession v) = RESULT
          \<and> adminDecision (wSession v) = Some Win
          \<and> map_option outcome (result (wSession v)) = Some Loss
          \<and> map_option balance (users (wStore v) ''A'') = Some 100)"
proof -
  let ?w0 = "demoWorld\<lparr>wSession := (wSession demoWorld)\<lparr>timeLeft := 0\<rparr>\<rparr>"
  note dw = demoWorld_fields
  have p0: "phase (wSession ?w0) = SPINNING" by (simp add: dw)
  have d0: "calculateDecision (wSession ?w0) = Loss"
    using demoWorld_decision by (simp add: calculateDecision_timeLeft)
  have "generateSlotOutcome (calculateDecision (wSession ?w0)) (wRandom ?w0) \<noteq> None"
    unfolding d0 by (simp add: dw capped_outcome)
  from nextPhase_spinning [OF p0 this, of lateOverrideEnv] obtain w2 where
    n: "nextPhase lateOverrideEnv ?w0 = Some w2"
    and p2: "phase (wSession w2) = RESULT"
    and o2: "map_option outcome (result (wSession w2)) = Some Loss"
    and s2: "wStore w2 = processPayouts 1700000000000 Loss [betA, betB] demoStore"
    and a2: "adminDecision (wSession w2) = Some Win"
    unfolding d0
    by (auto simp: dw demo_awaits lateOverrideEnv_def handleRequests_def handleRequest_def
          setAdminDecision_def)
  have t: "tick lateOverrideEnv demoWorld = Some w2"
    using tick_ends_phase [of lateOverrideEnv demoWorld] n
    by (simp add: lateOverrideEnv_def dw)
  have "map_option balance (users (wStore w2) ''A'') = Some 100"
    unfolding s2 demo_payouts_users by (simp add: playerA_def)
  with t p2 o2 a2 have "\<exists>v. tick lateOverrideEnv demoWorld = Some v
          \<and> phase (wSession v) = RESULT
          \<and> adminDecision (wSession v) = Some Win
          \<and> map_option outcome (result (wSession v)) = Some Loss
          \<and> map_option balance (users (wStore v) ''A'') = Some 100"
    by blast
  then show ?thesis by (simp add: dw)
qed

subsection \<open>Recovery from a failed tick\<close>




end
